theory Spec2Isabelle
  imports Complex_Main "HOL-Library.Word" "HOL-Library.Sublist"
begin

unbundle bit_operations_syntax

chapter \<open>Price Saver front end: alerts, filters, search, statistics, formatting\<close>

text \<open>
  A shallow embedding of the client-side logic of the price-comparison dashboard:
  \<^verbatim>\<open>user-dashboard.js\<close> (alerts, filters, search, statistics), the revised copy of
  the same page that the repository keeps as well (headed "User dashboard entrypoint
  (ES module) - FIXED VERSION", its text following the admin dashboard's in
  \<^verbatim>\<open>admin-dashboard.js\<close>; it adds rule deletion, the brand to the search, and a
  minimum and maximum per category), and \<^verbatim>\<open>utils.js\<close> (\<^verbatim>\<open>formatCurrency\<close>,
  \<^verbatim>\<open>debounce\<close>, \<^verbatim>\<open>hashPassword\<close>; the second \<^verbatim>\<open>hashPassword\<close> is in the module of
  small helpers).

  Conventions of the embedding.
  \<^item> A JavaScript number is a \<open>jsnum\<close>: \<open>NaN\<close>, the two infinities, or a finite value
    carried as an exact rational. Rounding of binary floating point is not modelled.
  \<^item> A JavaScript string is a HOL \<open>string\<close>; case folding and whitespace are the ASCII
    ones. \<^verbatim>\<open>hashPassword\<close> reads its argument through \<^verbatim>\<open>charCodeAt\<close>, so there a
    string is the list of its code units.
  \<^item> The module-level variables, the DOM fields read by a handler, the local store and
    the pending timers are components of an explicit state.
  \<^item> The builtin \<^verbatim>\<open>parseFloat\<close> is not part of the repository: a handler that
    calls it on a form field receives the parsed number as its input.
\<close>

section \<open>Definitions\<close>

subsection \<open>32-bit integer operators and number rendering\<close>

text \<open>\<^verbatim>\<open>ToInt32\<close>: reduce modulo \<open>2^32\<close>, then read as two's complement.\<close>

definition toInt32 :: "int \<Rightarrow> int" where
  "toInt32 x = (let m = x mod 2 ^ 32 in if m \<ge> 2 ^ 31 then m - 2 ^ 32 else m)"

text \<open>\<^verbatim>\<open>x << k\<close>: both operands through \<^verbatim>\<open>ToInt32\<close>/\<^verbatim>\<open>ToUint32\<close>, the shift count
  masked to five bits, the result a 32-bit signed integer.\<close>

definition js_shl :: "int \<Rightarrow> nat \<Rightarrow> int" where
  "js_shl x k = toInt32 (toInt32 x * 2 ^ (k mod 32))"

text \<open>\<^verbatim>\<open>x & y\<close> on the 32-bit signed readings of both operands.\<close>

definition js_band :: "int \<Rightarrow> int \<Rightarrow> int" where
  "js_band x y = toInt32 x AND toInt32 y"

fun digits_of :: "nat \<Rightarrow> string" where
  "digits_of n =
     (if n < 10 then [''0123456789'' ! n]
      else digits_of (n div 10) @ [''0123456789'' ! (n mod 10)])"

declare digits_of.simps [simp del]

text \<open>\<^verbatim>\<open>Number.prototype.toString\<close> on an integer: decimal digits, a minus sign first
  for a negative value.\<close>

definition int_toString :: "int \<Rightarrow> string" where
  "int_toString i = (if i < 0 then CHR ''-'' # digits_of (nat (- i)) else digits_of (nat i))"

subsection \<open>\<^verbatim>\<open>hashPassword\<close>, twice\<close>

text \<open>
  \<^verbatim>\<open>
  let hash = 0;
  for (let i = 0; i < password.length; i++) {
    const char = password.charCodeAt(i);
    hash = ((hash << 5) - hash) + char;
    hash = hash & hash;
  }
  return hash.toString();
  \<close>
  The subtraction and the addition are ordinary number arithmetic (no wrap-around); only
  \<^verbatim>\<open><<\<close> and \<^verbatim>\<open>&\<close> reduce to 32 bits. The loop over the indices is a recursion over
  the remaining code units.
\<close>

fun hash_loop :: "int \<Rightarrow> nat list \<Rightarrow> int" where
  "hash_loop hash [] = hash"
| "hash_loop hash (char # rest) =
     (let hash1 = (js_shl hash 5 - hash) + int char;
          hash2 = js_band hash1 hash1
      in hash_loop hash2 rest)"

text \<open>The copy in \<^verbatim>\<open>utils.js\<close>.\<close>

definition hashPassword :: "nat list \<Rightarrow> string" where
  "hashPassword password = int_toString (hash_loop 0 password)"

text \<open>The copy in the module of small helpers; its loop is written out again, as the
  source writes it again.\<close>

fun small_hash_loop :: "int \<Rightarrow> nat list \<Rightarrow> int" where
  "small_hash_loop hash [] = hash"
| "small_hash_loop hash (char # rest) =
     (let hash1 = (js_shl hash 5 - hash) + int char;
          hash2 = js_band hash1 hash1
      in small_hash_loop hash2 rest)"

definition small_hashPassword :: "nat list \<Rightarrow> string" where
  "small_hashPassword password = int_toString (small_hash_loop 0 password)"

text \<open>The recurrence as the specification words it, on 32-bit machine words:
  \<open>h \<leftarrow> ((h << 5) - h) + charCode\<close>, from 0, read as a signed integer at the end.\<close>

definition rolling_step :: "32 word \<Rightarrow> nat \<Rightarrow> 32 word" where
  "rolling_step h c = (push_bit 5 h - h) + of_nat c"

definition rolling_hash :: "nat list \<Rightarrow> 32 word" where
  "rolling_hash cs = foldl rolling_step 0 cs"

subsection \<open>Numbers and strings of the JavaScript runtime\<close>

datatype jsnum = NaN | NegInf | Fin rat | PosInf

text \<open>\<^verbatim>\<open>a <= b\<close> on numbers: false as soon as one side is \<open>NaN\<close>.\<close>

fun js_le :: "jsnum \<Rightarrow> jsnum \<Rightarrow> bool" where
  "js_le NaN b = False"
| "js_le a NaN = False"
| "js_le NegInf b = True"
| "js_le (Fin x) NegInf = False"
| "js_le (Fin x) (Fin y) = (x \<le> y)"
| "js_le (Fin x) PosInf = True"
| "js_le PosInf PosInf = True"
| "js_le PosInf b = False"

text \<open>\<^verbatim>\<open>a >= b\<close>.\<close>

definition js_ge :: "jsnum \<Rightarrow> jsnum \<Rightarrow> bool" where
  "js_ge a b = js_le b a"

text \<open>Truthiness of a number: \<open>NaN\<close> and zero are falsy. \<^verbatim>\<open>a || d\<close> on numbers.\<close>

fun num_truthy :: "jsnum \<Rightarrow> bool" where
  "num_truthy NaN = False"
| "num_truthy (Fin x) = (x \<noteq> 0)"
| "num_truthy NegInf = True"
| "num_truthy PosInf = True"

definition num_or :: "jsnum \<Rightarrow> jsnum \<Rightarrow> jsnum" where
  "num_or a d = (if num_truthy a then a else d)"

text \<open>\<^verbatim>\<open>a + b\<close> on numbers, and \<^verbatim>\<open>a / n\<close> for a positive count \<open>n\<close>.\<close>

fun js_add :: "jsnum \<Rightarrow> jsnum \<Rightarrow> jsnum" where
  "js_add NaN b = NaN"
| "js_add a NaN = NaN"
| "js_add (Fin x) (Fin y) = Fin (x + y)"
| "js_add (Fin x) b = b"
| "js_add a (Fin y) = a"
| "js_add PosInf PosInf = PosInf"
| "js_add NegInf NegInf = NegInf"
| "js_add PosInf NegInf = NaN"
| "js_add NegInf PosInf = NaN"

fun js_div_count :: "jsnum \<Rightarrow> nat \<Rightarrow> jsnum" where
  "js_div_count (Fin x) n = Fin (x / of_nat n)"
| "js_div_count a n = a"

text \<open>\<^verbatim>\<open>Math.min\<close> and \<^verbatim>\<open>Math.max\<close> of two numbers: \<open>NaN\<close> if either is.\<close>

fun js_min :: "jsnum \<Rightarrow> jsnum \<Rightarrow> jsnum" where
  "js_min NaN b = NaN"
| "js_min a NaN = NaN"
| "js_min a b = (if js_le a b then a else b)"

fun js_max :: "jsnum \<Rightarrow> jsnum \<Rightarrow> jsnum" where
  "js_max NaN b = NaN"
| "js_max a NaN = NaN"
| "js_max a b = (if js_le a b then b else a)"

text \<open>\<^verbatim>\<open>toLowerCase\<close> and \<^verbatim>\<open>trim\<close>, on ASCII; \<^verbatim>\<open>s.includes(q)\<close> is \<open>sublist q s\<close>.\<close>

definition lower_char :: "char \<Rightarrow> char" where
  "lower_char c =
     (let n = (of_char c :: nat) in if 65 \<le> n \<and> n \<le> 90 then char_of (n + 32) else c)"

definition toLowerCase :: "string \<Rightarrow> string" where
  "toLowerCase s = map lower_char s"

definition is_space :: "char \<Rightarrow> bool" where
  "is_space c = ((of_char c :: nat) \<in> {9, 10, 11, 12, 13, 32})"

definition trim :: "string \<Rightarrow> string" where
  "trim s = rev (dropWhile is_space (rev (dropWhile is_space s)))"

definition js_includes :: "string \<Rightarrow> string \<Rightarrow> bool" where
  "js_includes s q = sublist q s"

subsection \<open>\<^verbatim>\<open>formatCurrency\<close>\<close>

text \<open>
  \<^verbatim>\<open>Number.prototype.toFixed(2)\<close>: a non-finite number prints as its name; otherwise
  the sign, then the integer \<open>n\<close> nearest to \<open>100 * |x|\<close> (the larger one on a tie),
  padded to three digits, with a point before the last two. For magnitudes of \<open>10^21\<close>
  and more the builtin switches to exponent notation, which depends on the binary
  representation and is outside this model: the theorems about rendering state the bound.
\<close>

definition toFixed2 :: "jsnum \<Rightarrow> string" where
  "toFixed2 v =
     (case v of
        NaN \<Rightarrow> ''NaN''
      | PosInf \<Rightarrow> ''Infinity''
      | NegInf \<Rightarrow> ''-Infinity''
      | Fin x \<Rightarrow>
          (let s = (if x < 0 then ''-'' else []);
               n = nat \<lfloor>\<bar>x\<bar> * 100 + 1 / 2\<rfloor>;
               m0 = digits_of n;
               m = (if length m0 \<le> 2 then replicate (3 - length m0) (CHR ''0'') @ m0 else m0);
               k = length m
           in s @ take (k - 2) m @ ''.'' @ drop (k - 2) m))"

text \<open>
  \<^verbatim>\<open>.replace(/\B(?=(\d{3})+(?!\d))/g, ',')\<close>. The pattern is empty-width, so every
  position of the string is tried once, and a comma is put in at each position that
  matches: \<^verbatim>\<open>\B\<close> holds where the characters on both sides are both word characters or
  both not (the outside of the string counting as not), and the lookahead holds where the
  run of digits that starts here has a positive length divisible by three (the run must
  end where the last group of three ends).
\<close>

definition is_digit :: "char \<Rightarrow> bool" where
  "is_digit c = (48 \<le> (of_char c :: nat) \<and> (of_char c :: nat) \<le> 57)"

definition is_word_char :: "char \<Rightarrow> bool" where
  "is_word_char c =
     (let n = (of_char c :: nat)
      in (48 \<le> n \<and> n \<le> 57) \<or> (65 \<le> n \<and> n \<le> 90) \<or> (97 \<le> n \<and> n \<le> 122) \<or> n = 95)"

definition digit_triples_ahead :: "string \<Rightarrow> bool" where
  "digit_triples_ahead s = (let n = length (takeWhile is_digit s) in 0 < n \<and> n mod 3 = 0)"

fun replace_with_commas :: "bool \<Rightarrow> string \<Rightarrow> string" where
  "replace_with_commas prev_word [] = []"
| "replace_with_commas prev_word (c # cs) =
     (if prev_word = is_word_char c \<and> digit_triples_ahead (c # cs) then '','' else [])
     @ c # replace_with_commas (is_word_char c) cs"

declare replace_with_commas.simps [simp del]

text \<open>The naira sign U+20A6, as its three UTF-8 bytes.\<close>

definition naira :: string where
  "naira = [char_of (226 :: nat), char_of (130 :: nat), char_of (166 :: nat)]"

text \<open>
  \<^verbatim>\<open>
  if (typeof amount !== 'number') { amount = parseFloat(amount) || 0; }
  return `N${amount.toFixed(2).replace(/\B(?=(\d{3})+(?!\d))/g, ',')}`;
  \<close>
  (with the naira sign where this text writes N). The argument is either a number, or a
  value of another type together with what \<^verbatim>\<open>parseFloat\<close> returns on it: \<open>NaN\<close> for
  \<^verbatim>\<open>undefined\<close>, \<^verbatim>\<open>null\<close> and every string with no numeric prefix.
\<close>

datatype amount = IsNumber jsnum | NotNumber jsnum

definition formatCurrency :: "amount \<Rightarrow> string" where
  "formatCurrency amount =
     (let amount' = (case amount of IsNumber n \<Rightarrow> n | NotNumber parsed \<Rightarrow> num_or parsed (Fin 0))
      in naira @ replace_with_commas False (toFixed2 amount'))"

text \<open>The rendering the specification describes, written independently of the regular
  expression: counting from the right, a comma after every three digits that have a
  digit further left; and the test for two decimal places.\<close>

fun commas_from_right :: "string \<Rightarrow> string" where
  "commas_from_right (a # b # c # d # rest) = a # b # c # CHR '','' # commas_from_right (d # rest)"
| "commas_from_right ds = ds"

definition thousands :: "string \<Rightarrow> string" where
  "thousands ds = rev (commas_from_right (rev ds))"

definition two_decimals :: "string \<Rightarrow> bool" where
  "two_decimals s =
     (case rev s of
        d2 # d1 # p # rest \<Rightarrow> is_digit d2 \<and> is_digit d1 \<and> p = CHR ''.''
      | _ \<Rightarrow> False)"

text \<open>The amount in hundredths, rounded to the nearest (half up), and its two decimal
  digits.\<close>

definition hundredths :: "rat \<Rightarrow> nat" where
  "hundredths x = nat \<lfloor>\<bar>x\<bar> * 100 + 1 / 2\<rfloor>"

definition two_digits :: "nat \<Rightarrow> string" where
  "two_digits k = [''0123456789'' ! (k div 10), ''0123456789'' ! (k mod 10)]"

text \<open>Two other readings of the grouping, used to relate the regular expression to
  \<open>thousands\<close>: from the left, a comma before each digit that has a multiple of three
  digits from itself to the end; and in the reversed string, a comma after every third
  digit.\<close>

fun commas_before :: "string \<Rightarrow> string" where
  "commas_before [] = []"
| "commas_before (c # cs) =
     (if length (c # cs) mod 3 = 0 then '','' else []) @ c # commas_before cs"

fun commas_after_three :: "string \<Rightarrow> string" where
  "commas_after_three (a # b # c # rest) = a # b # c # CHR '','' # commas_after_three rest"
| "commas_after_three ds = ds"

subsection \<open>Price records and alert rules\<close>

text \<open>
  A price as the API's JSON delivers it: a number, \<^verbatim>\<open>null\<close>, or absent
  (\<^verbatim>\<open>undefined\<close>). Prices that are strings are outside the record type.
\<close>

datatype price_val = Undefined | Null | Num jsnum

text \<open>\<^verbatim>\<open>typeof v === 'number'\<close>; the conversion to a number that \<^verbatim>\<open><=\<close> applies to an
  operand; \<^verbatim>\<open>v || 0\<close>; and the value as \<^verbatim>\<open>formatCurrency\<close> receives it.\<close>

fun is_number :: "price_val \<Rightarrow> bool" where
  "is_number (Num n) = True"
| "is_number v = False"

fun toNumber :: "price_val \<Rightarrow> jsnum" where
  "toNumber Undefined = NaN"
| "toNumber Null = Fin 0"
| "toNumber (Num n) = n"

fun price_or_zero :: "price_val \<Rightarrow> jsnum" where
  "price_or_zero (Num n) = num_or n (Fin 0)"
| "price_or_zero v = Fin 0"

fun amount_of :: "price_val \<Rightarrow> amount" where
  "amount_of (Num n) = IsNumber n"
| "amount_of v = NotNumber NaN"

text \<open>The fields of a price record that the logic below reads. A text field is \<open>None\<close>
  when it is \<^verbatim>\<open>null\<close> or absent; \<open>category_id\<close> is a number or \<^verbatim>\<open>null\<close>.\<close>

record price_record =
  category_id :: "int option"
  name :: "string option"
  brand :: "string option"
  price :: price_val
  retailer :: "string option"
  location :: "string option"

text \<open>An alert rule. \<open>alert_id\<close> is the source's \<^verbatim>\<open>id\<close> (\<^verbatim>\<open>Date.now()\<close> at creation);
  \<open>createdAt\<close> is the text of \<^verbatim>\<open>new Date().toISOString()\<close>, set by the revised page
  only.\<close>

record alert =
  alert_id :: nat
  itemName :: string
  threshold :: jsnum
  triggered :: bool
  createdAt :: "string option"

text \<open>
  JSON values. \<^verbatim>\<open>JSON.stringify\<close> followed by \<^verbatim>\<open>setItem\<close> puts a text in the store, and
  \<^verbatim>\<open>getItem\<close> followed by \<^verbatim>\<open>JSON.parse\<close> reads it back; text and value correspond one
  to one up to layout, so the store is modelled as holding the value. What
  \<^verbatim>\<open>JSON.stringify\<close> loses is lost in the value: a number that is not finite is written
  as \<^verbatim>\<open>null\<close>, and a property that is \<^verbatim>\<open>undefined\<close> is left out.
\<close>

datatype json =
    JNull
  | JBool bool
  | JNumber rat
  | JString string
  | JArray "json list"
  | JObject "(string \<times> json) list"

fun number_json :: "jsnum \<Rightarrow> json" where
  "number_json (Fin x) = JNumber x"
| "number_json v = JNull"

text \<open>\<^verbatim>\<open>JSON.stringify\<close> of a rule (its properties in the order of the object literal
  that created it) and of the rule list.\<close>

definition alert_json :: "alert \<Rightarrow> json" where
  "alert_json a =
     JObject ([(''id'', JNumber (of_nat (alert_id a))),
               (''itemName'', JString (itemName a)),
               (''threshold'', number_json (threshold a)),
               (''triggered'', JBool (triggered a))]
              @ (case createdAt a of
                   None \<Rightarrow> []
                 | Some stamp \<Rightarrow> [(''createdAt'', JString stamp)]))"

definition stringify_alerts :: "alert list \<Rightarrow> json" where
  "stringify_alerts rules = JArray (map alert_json rules)"

text \<open>
  Reading a stored value back as a rule list, as the module does when it loads
  (\<^verbatim>\<open>JSON.parse(localStorage.getItem('priceAlerts') || '[]')\<close>). The result is \<open>None\<close> when
  the value is not an array of rules of the data model: an object whose \<^verbatim>\<open>threshold\<close> is
  \<^verbatim>\<open>null\<close> is not one.
\<close>

fun as_number :: "json option \<Rightarrow> rat option" where
  "as_number (Some (JNumber x)) = Some x"
| "as_number v = None"

fun as_string :: "json option \<Rightarrow> string option" where
  "as_string (Some (JString s)) = Some s"
| "as_string v = None"

fun as_bool :: "json option \<Rightarrow> bool option" where
  "as_bool (Some (JBool b)) = Some b"
| "as_bool v = None"

definition read_alert :: "json \<Rightarrow> alert option" where
  "read_alert j =
     (case j of
        JObject props \<Rightarrow>
          (case (as_number (map_of props ''id''), as_string (map_of props ''itemName''),
                 as_number (map_of props ''threshold''), as_bool (map_of props ''triggered'')) of
             (Some i, Some n, Some x, Some t) \<Rightarrow>
               if 0 \<le> i \<and> of_int \<lfloor>i\<rfloor> = i
                  \<and> (map_of props ''createdAt'' = None
                       \<or> as_string (map_of props ''createdAt'') \<noteq> None)
               then Some \<lparr>alert_id = nat \<lfloor>i\<rfloor>, itemName = n, threshold = Fin x, triggered = t,
                          createdAt = as_string (map_of props ''createdAt'')\<rparr>
               else None
           | _ \<Rightarrow> None)
      | _ \<Rightarrow> None)"

definition read_alerts :: "json \<Rightarrow> alert list option" where
  "read_alerts j = (case j of JArray items \<Rightarrow> those (map read_alert items) | _ \<Rightarrow> None)"

text \<open>
  The page: the module variable \<^verbatim>\<open>priceAlerts\<close>, the local store, and the messages
  shown so far by \<^verbatim>\<open>showToast\<close> and by \<^verbatim>\<open>alert(...)\<close>, oldest first.
  \<^verbatim>\<open>localStorage.setItem\<close> throws when the store refuses the write (quota exceeded,
  storage disabled); \<open>store_available\<close> says whether it accepts. None of the handlers
  below catches the exception: it leaves the handler at once, what the handler did before
  stays done, and \<open>thrown\<close> records it.
\<close>

datatype js_error = QuotaExceededError

record page =
  priceAlerts :: "alert list"
  localStorage :: "string \<rightharpoonup> json"
  store_available :: bool
  toasts :: "string list"
  alert_boxes :: "string list"
  thrown :: "js_error list"

definition setItem :: "string \<Rightarrow> json \<Rightarrow> page \<Rightarrow> js_error + page" where
  "setItem key v pg =
     (if store_available pg then Inr (pg\<lparr>localStorage := (localStorage pg)(key \<mapsto> v)\<rparr>)
      else Inl QuotaExceededError)"

text \<open>The end of a handler whose last modelled statement is the write.\<close>

definition write_or_throw :: "js_error + page \<Rightarrow> page \<Rightarrow> page" where
  "write_or_throw written pg =
     (case written of Inl e \<Rightarrow> pg\<lparr>thrown := thrown pg @ [e]\<rparr> | Inr pg' \<Rightarrow> pg')"

subsection \<open>Alerts in \<^verbatim>\<open>user-dashboard.js\<close>\<close>

text \<open>
  \<^verbatim>\<open>
  const itemName = document.getElementById('alertItemName').value.trim();
  const threshold = parseFloat(document.getElementById('alertThreshold').value);
  if (!itemName || Number.isNaN(threshold)) { alert('Please fill all alert fields'); return; }
  priceAlerts.push({ id: Date.now(), itemName, threshold, triggered:false });
  localStorage.setItem('priceAlerts', JSON.stringify(priceAlerts));
  \<close>
  The arguments are the text of the name field, the parsed threshold field and the clock.
\<close>

definition savePriceAlert :: "string \<Rightarrow> jsnum \<Rightarrow> nat \<Rightarrow> page \<Rightarrow> page" where
  "savePriceAlert name_field parsed_threshold now pg =
     (let itemName' = trim name_field in
      if itemName' = [] \<or> parsed_threshold = NaN
      then pg\<lparr>alert_boxes := alert_boxes pg @ [''Please fill all alert fields'']\<rparr>
      else
        (let rules = priceAlerts pg @
               [\<lparr>alert_id = now, itemName = itemName', threshold = parsed_threshold,
                 triggered = False, createdAt = None\<rparr>];
             pg1 = pg\<lparr>priceAlerts := rules\<rparr>
         in write_or_throw (setItem ''priceAlerts'' (stringify_alerts rules) pg1) pg1))"

text \<open>
  \<^verbatim>\<open>
  priceAlerts.forEach(alert => {
    if (alert.triggered) return;
    const hit = prices.find(p => p.name?.toLowerCase() === alert.itemName.toLowerCase()
                                 && p.price <= alert.threshold);
    if (hit) {
      alert.triggered = true;
      showToast(`Price alert: ${alert.itemName} is now ${formatCurrency(hit.price)}`);
    }
  });
  localStorage.setItem('priceAlerts', JSON.stringify(priceAlerts));
  \<close>
\<close>

definition alert_hit :: "alert \<Rightarrow> price_record \<Rightarrow> bool" where
  "alert_hit a p =
     ((case name p of None \<Rightarrow> False | Some n \<Rightarrow> toLowerCase n = toLowerCase (itemName a))
      \<and> js_le (toNumber (price p)) (threshold a))"

definition toast_text :: "alert \<Rightarrow> price_record \<Rightarrow> string" where
  "toast_text a hit =
     ''Price alert: '' @ itemName a @ '' is now '' @ formatCurrency (amount_of (price hit))"

text \<open>One call of the \<^verbatim>\<open>forEach\<close> callback: the rule as it is left, and what was
  shown.\<close>

definition check_alert :: "price_record list \<Rightarrow> alert \<Rightarrow> alert \<times> string list" where
  "check_alert prices a =
     (if triggered a then (a, [])
      else case find (alert_hit a) prices of
             None \<Rightarrow> (a, [])
           | Some hit \<Rightarrow> (a\<lparr>triggered := True\<rparr>, [toast_text a hit]))"

fun forEach_alert :: "price_record list \<Rightarrow> alert list \<Rightarrow> alert list \<times> string list" where
  "forEach_alert prices [] = ([], [])"
| "forEach_alert prices (a # rest) =
     (let (a', shown) = check_alert prices a;
          (rest', shown') = forEach_alert prices rest
      in (a' # rest', shown @ shown'))"

definition checkPriceAlerts :: "price_record list \<Rightarrow> page \<Rightarrow> page" where
  "checkPriceAlerts prices pg =
     (let (rules, shown) = forEach_alert prices (priceAlerts pg);
          pg1 = pg\<lparr>priceAlerts := rules, toasts := toasts pg @ shown\<rparr>
      in write_or_throw (setItem ''priceAlerts'' (stringify_alerts rules) pg1) pg1)"

subsection \<open>Alerts in the revised page\<close>

text \<open>
  The revised copy of the page rejects a threshold that is not positive, stamps the rule
  with its creation time (the fourth argument below), confirms with a toast, writes the
  store after an evaluation only when a rule fired, and adds deletion:
  \<^verbatim>\<open>
  if (!itemName || isNaN(threshold) || threshold <= 0) {
    showToast('Please fill all alert fields correctly', 'error'); return; }
  priceAlerts.push({ id: Date.now(), itemName, threshold, triggered: false,
                     createdAt: new Date().toISOString() });
  localStorage.setItem('priceAlerts', JSON.stringify(priceAlerts));
  showToast(`Alert set for ${itemName}`, 'success');
  \<close>
\<close>

definition savePriceAlert_revised ::
  "string \<Rightarrow> jsnum \<Rightarrow> nat \<Rightarrow> string \<Rightarrow> page \<Rightarrow> page" where
  "savePriceAlert_revised name_field parsed_threshold now iso_now pg =
     (let itemName' = trim name_field in
      if itemName' = [] \<or> parsed_threshold = NaN \<or> js_le parsed_threshold (Fin 0)
      then pg\<lparr>toasts := toasts pg @ [''Please fill all alert fields correctly'']\<rparr>
      else
        (let rules = priceAlerts pg @
               [\<lparr>alert_id = now, itemName = itemName', threshold = parsed_threshold,
                 triggered = False, createdAt = Some iso_now\<rparr>];
             pg1 = pg\<lparr>priceAlerts := rules\<rparr>
         in case setItem ''priceAlerts'' (stringify_alerts rules) pg1 of
              Inl e \<Rightarrow> pg1\<lparr>thrown := thrown pg1 @ [e]\<rparr>
            | Inr pg2 \<Rightarrow> pg2\<lparr>toasts := toasts pg2 @ [''Alert set for '' @ itemName']\<rparr>))"

text \<open>
  \<^verbatim>\<open>
  let triggered = 0;
  priceAlerts.forEach(alert => {
    if (alert.triggered) return;
    const match = prices.find(p => p.name?.toLowerCase() === alert.itemName.toLowerCase()
                                   && p.price <= alert.threshold);
    if (match) { alert.triggered = true; triggered++; showToast(`... Price Alert: ...!`, ...); }
  });
  if (triggered > 0) { localStorage.setItem('priceAlerts', JSON.stringify(priceAlerts)); ... }
  \<close>
  The toast starts with a bell sign (four UTF-8 bytes) and a space.
\<close>

definition bell :: string where
  "bell = [char_of (240 :: nat), char_of (159 :: nat), char_of (148 :: nat), char_of (148 :: nat)]"

definition toast_text_revised :: "alert \<Rightarrow> price_record \<Rightarrow> string" where
  "toast_text_revised a match =
     bell @ '' Price Alert: '' @ itemName a @ '' is now ''
       @ formatCurrency (amount_of (price match)) @ ''!''"

definition check_alert_revised :: "price_record list \<Rightarrow> alert \<Rightarrow> alert \<times> string list" where
  "check_alert_revised prices a =
     (if triggered a then (a, [])
      else case find (alert_hit a) prices of
             None \<Rightarrow> (a, [])
           | Some match \<Rightarrow> (a\<lparr>triggered := True\<rparr>, [toast_text_revised a match]))"

fun forEach_alert_revised ::
  "price_record list \<Rightarrow> alert list \<Rightarrow> alert list \<times> string list" where
  "forEach_alert_revised prices [] = ([], [])"
| "forEach_alert_revised prices (a # rest) =
     (let (a', shown) = check_alert_revised prices a;
          (rest', shown') = forEach_alert_revised prices rest
      in (a' # rest', shown @ shown'))"

definition checkPriceAlerts_revised :: "price_record list \<Rightarrow> page \<Rightarrow> page" where
  "checkPriceAlerts_revised prices pg =
     (let (rules, shown) = forEach_alert_revised prices (priceAlerts pg);
          triggered_count = length shown;
          pg1 = pg\<lparr>priceAlerts := rules, toasts := toasts pg @ shown\<rparr>
      in if triggered_count > 0
         then write_or_throw (setItem ''priceAlerts'' (stringify_alerts rules) pg1) pg1
         else pg1)"

text \<open>
  \<^verbatim>\<open>
  window.deleteAlert = function(alertId) {
    priceAlerts = priceAlerts.filter(a => a.id !== alertId);
    localStorage.setItem('priceAlerts', JSON.stringify(priceAlerts));
    ... showToast('Alert deleted', 'success');
  };
  \<close>
\<close>

definition deleteAlert :: "nat \<Rightarrow> page \<Rightarrow> page" where
  "deleteAlert alertId pg =
     (let rules = filter (\<lambda>a. alert_id a \<noteq> alertId) (priceAlerts pg);
          pg1 = pg\<lparr>priceAlerts := rules\<rparr>
      in case setItem ''priceAlerts'' (stringify_alerts rules) pg1 of
           Inl e \<Rightarrow> pg1\<lparr>thrown := thrown pg1 @ [e]\<rparr>
         | Inr pg2 \<Rightarrow> pg2\<lparr>toasts := toasts pg2 @ [''Alert deleted'']\<rparr>)"

text \<open>The operations on the rule set, of either copy of the page, and runs of them.\<close>

datatype page_op =
    SavePriceAlert string jsnum nat
  | CheckPriceAlerts "price_record list"
  | SavePriceAlertRevised string jsnum nat string
  | CheckPriceAlertsRevised "price_record list"
  | DeleteAlert nat

fun page_step :: "page_op \<Rightarrow> page \<Rightarrow> page" where
  "page_step (SavePriceAlert name_field parsed now) pg = savePriceAlert name_field parsed now pg"
| "page_step (CheckPriceAlerts prices) pg = checkPriceAlerts prices pg"
| "page_step (SavePriceAlertRevised name_field parsed now iso_now) pg =
     savePriceAlert_revised name_field parsed now iso_now pg"
| "page_step (CheckPriceAlertsRevised prices) pg = checkPriceAlerts_revised prices pg"
| "page_step (DeleteAlert alertId) pg = deleteAlert alertId pg"

fun run_page :: "page_op list \<Rightarrow> page \<Rightarrow> page" where
  "run_page [] pg = pg"
| "run_page (op # ops) pg = run_page ops (page_step op pg)"

text \<open>
  What the specification asks of a record for a rule to fire: its name equals the rule's
  item name up to case, and its price is a number not above the threshold. The source's
  test \<open>alert_hit\<close> is implied by it.
\<close>

definition qualifies :: "alert \<Rightarrow> price_record \<Rightarrow> bool" where
  "qualifies r p =
     ((case name p of None \<Rightarrow> False | Some n \<Rightarrow> toLowerCase n = toLowerCase (itemName r))
      \<and> (case price p of Num x \<Rightarrow> js_le x (threshold r) | _ \<Rightarrow> False))"

text \<open>The only change a rule may undergo: none, or \<open>triggered\<close> going from false to
  true.\<close>

definition may_fire :: "alert \<Rightarrow> alert \<Rightarrow> bool" where
  "may_fire a b = (b = a \<or> (triggered a = False \<and> b = a\<lparr>triggered := True\<rparr>))"

text \<open>The rules of a list that a run of operations does not delete.\<close>

definition kept :: "page_op list \<Rightarrow> alert list \<Rightarrow> alert list" where
  "kept ops rules = filter (\<lambda>a. DeleteAlert (alert_id a) \<notin> set ops) rules"

text \<open>
  What an evaluation is to leave of a rule: the rule with \<open>triggered\<close> set if it was
  set or some record of the snapshot hits it. And the rules whose threshold is a finite
  number.
\<close>

definition flag_updated :: "price_record list \<Rightarrow> alert \<Rightarrow> alert" where
  "flag_updated S a = a\<lparr>triggered := triggered a \<or> (\<exists>p \<in> set S. alert_hit a p)\<rparr>"

definition finite_threshold :: "alert \<Rightarrow> bool" where
  "finite_threshold a = (case threshold a of Fin x \<Rightarrow> True | _ \<Rightarrow> False)"

subsection \<open>Filters\<close>

text \<open>
  \<^verbatim>\<open>
  const categoryId = document.getElementById('filterCategory').value;
  const minPrice = parseFloat(document.getElementById('filterMinPrice').value) || 0;
  const maxPrice = parseFloat(document.getElementById('filterMaxPrice').value)
                   || Number.POSITIVE_INFINITY;
  const retailer = document.getElementById('filterRetailer').value.toLowerCase();
  const location = document.getElementById('filterLocation').value.toLowerCase();
  \<close>
  The form as the handler reads it: the texts of three fields, and the two price fields
  as \<^verbatim>\<open>parseFloat\<close> returns them (\<open>NaN\<close> for an empty or non-numeric field).
\<close>

record filter_form =
  filterCategory :: string
  filterMinPrice :: jsnum
  filterMaxPrice :: jsnum
  filterRetailer :: string
  filterLocation :: string

text \<open>\<^verbatim>\<open>String(p.category_id)\<close>.\<close>

fun js_String :: "int option \<Rightarrow> string" where
  "js_String None = ''null''"
| "js_String (Some i) = int_toString i"

text \<open>
  \<^verbatim>\<open>
  const filtered = allPrices.filter(p => {
    const matchCategory = !categoryId || String(p.category_id) === String(categoryId);
    const matchPrice = typeof p.price === 'number' && p.price >= minPrice && p.price <= maxPrice;
    const matchRetailer = !retailer || (p.retailer && p.retailer.toLowerCase().includes(retailer));
    const matchLocation = !location || (p.location && p.location.toLowerCase().includes(location));
    return matchCategory && matchPrice && matchRetailer && matchLocation;
  });
  displayPrices(filtered);
  \<close>
  \<open>text_has field q\<close> is \<^verbatim>\<open>field && field.toLowerCase().includes(q)\<close>.
\<close>

definition text_has :: "string option \<Rightarrow> string \<Rightarrow> bool" where
  "text_has field q =
     (case field of None \<Rightarrow> False | Some s \<Rightarrow> s \<noteq> [] \<and> js_includes (toLowerCase s) q)"

definition applyFilters :: "filter_form \<Rightarrow> price_record list \<Rightarrow> price_record list" where
  "applyFilters form allPrices =
     (let categoryId = filterCategory form;
          minPrice = num_or (filterMinPrice form) (Fin 0);
          maxPrice = num_or (filterMaxPrice form) PosInf;
          retailer' = toLowerCase (filterRetailer form);
          location' = toLowerCase (filterLocation form)
      in filter (\<lambda>p.
           let matchCategory = (categoryId = [] \<or> js_String (category_id p) = categoryId);
               matchPrice = (is_number (price p) \<and> js_ge (toNumber (price p)) minPrice
                             \<and> js_le (toNumber (price p)) maxPrice);
               matchRetailer = (retailer' = [] \<or> text_has (retailer p) retailer');
               matchLocation = (location' = [] \<or> text_has (location p) location')
           in matchCategory \<and> matchPrice \<and> matchRetailer \<and> matchLocation) allPrices)"

text \<open>The criteria as the specification has them, the bounds being those the form
  states: a price is inside when it is a number between them.\<close>

definition price_within :: "price_val \<Rightarrow> jsnum \<Rightarrow> jsnum \<Rightarrow> bool" where
  "price_within v lo hi = (case v of Num n \<Rightarrow> js_le lo n \<and> js_le n hi | _ \<Rightarrow> False)"

subsection \<open>Search\<close>

text \<open>
  The body of the timer callback in \<^verbatim>\<open>setupFilters\<close>:
  \<^verbatim>\<open>
  const q = searchInput.value.trim().toLowerCase();
  if (!q) { resultsDiv?.classList.remove('open'); displayPrices(allPrices); return; }
  const filtered = allPrices.filter(p =>
    (p.name && p.name.toLowerCase().includes(q)) ||
    (p.retailer && p.retailer.toLowerCase().includes(q)) ||
    (p.location && p.location.toLowerCase().includes(q)));
  resultsDiv.innerHTML = filtered.slice(0,6).map(...)...
  \<close>
  The outcome is either the whole snapshot put back on display, or the matches with the
  at most six of them listed in the drop-down.
\<close>

datatype search_view =
    DisplayAll "price_record list"
  | Results "price_record list" "price_record list"

definition search_filter :: "string \<Rightarrow> price_record list \<Rightarrow> price_record list" where
  "search_filter q allPrices =
     filter (\<lambda>p. text_has (name p) q \<or> text_has (retailer p) q \<or> text_has (location p) q)
       allPrices"

definition search :: "string \<Rightarrow> price_record list \<Rightarrow> search_view" where
  "search field_text allPrices =
     (let q = toLowerCase (trim field_text) in
      if q = [] then DisplayAll allPrices
      else (let filtered = search_filter q allPrices in Results filtered (take 6 filtered)))"

text \<open>The filter of the revised page's \<^verbatim>\<open>setupGlobalSearch\<close>, which also reads the
  brand:
  \<^verbatim>\<open>
    (p.name && p.name.toLowerCase().includes(query)) ||
    (p.retailer && p.retailer.toLowerCase().includes(query)) ||
    (p.location && p.location.toLowerCase().includes(query)) ||
    (p.brand && p.brand.toLowerCase().includes(query))
  \<close>\<close>

definition search_filter_revised :: "string \<Rightarrow> price_record list \<Rightarrow> price_record list" where
  "search_filter_revised query allPrices =
     filter (\<lambda>p. text_has (name p) query \<or> text_has (retailer p) query
                \<or> text_has (location p) query \<or> text_has (brand p) query)
       allPrices"

subsection \<open>Statistics\<close>

text \<open>
  \<^verbatim>\<open>
  function updateStats(prices) {
    document.getElementById('totalPrices').textContent = prices.length;
    const avg = prices.length
      ? (prices.reduce((sum, p) => sum + (p.price || 0), 0) / prices.length) : 0;
    document.getElementById('avgPrice').textContent = formatCurrency(avg);
    document.getElementById('totalLocations').textContent =
      new Set(prices.map(p => p.location).filter(Boolean)).size;
    document.getElementById('totalRetailers').textContent =
      new Set(prices.map(p => p.retailer).filter(Boolean)).size;
  }
  \<close>
\<close>

definition price_sum :: "price_record list \<Rightarrow> jsnum" where
  "price_sum prices = foldl (\<lambda>sum p. js_add sum (price_or_zero (price p))) (Fin 0) prices"

definition average :: "price_record list \<Rightarrow> jsnum" where
  "average prices =
     (if length prices \<noteq> 0 then js_div_count (price_sum prices) (length prices) else Fin 0)"

text \<open>The size of \<^verbatim>\<open>new Set(values.filter(Boolean))\<close> for text values.\<close>

definition distinct_count :: "string option list \<Rightarrow> nat" where
  "distinct_count values =
     length (remdups (filter (\<lambda>v. v \<noteq> None \<and> v \<noteq> Some []) values))"

record stats =
  totalPrices :: nat
  avg :: jsnum
  avgPrice :: string
  totalLocations :: nat
  totalRetailers :: nat

definition updateStats :: "price_record list \<Rightarrow> stats" where
  "updateStats prices =
     \<lparr>totalPrices = length prices,
      avg = average prices,
      avgPrice = formatCurrency (IsNumber (average prices)),
      totalLocations = distinct_count (map location prices),
      totalRetailers = distinct_count (map retailer prices)\<rparr>"

text \<open>
  Per category, in \<^verbatim>\<open>populateCategoryInsights\<close> of the revised page:
  \<^verbatim>\<open>
  const catPrices = allPrices.filter(p => p.category_id === cat.id);
  const avgPrice = catPrices.length
    ? (catPrices.reduce((sum, p) => sum + (p.price || 0), 0) / catPrices.length) : 0;
  const minPrice = catPrices.length ? Math.min(...catPrices.map(p => p.price || 0)) : 0;
  const maxPrice = catPrices.length ? Math.max(...catPrices.map(p => p.price || 0)) : 0;
  \<close>
  \<^verbatim>\<open>Math.min\<close> of no arguments is \<open>+Infinity\<close> and \<^verbatim>\<open>Math.max\<close> of none is
  \<open>-Infinity\<close>.
\<close>

definition math_min :: "jsnum list \<Rightarrow> jsnum" where
  "math_min xs = foldr js_min xs PosInf"

definition math_max :: "jsnum list \<Rightarrow> jsnum" where
  "math_max xs = foldr js_max xs NegInf"

record category_stats =
  count :: nat
  avgPrice_of :: jsnum
  minPrice_of :: jsnum
  maxPrice_of :: jsnum

definition category_insight :: "int option \<Rightarrow> price_record list \<Rightarrow> category_stats" where
  "category_insight cat allPrices =
     (let catPrices = filter (\<lambda>p. category_id p = cat) allPrices in
      \<lparr>count = length catPrices,
       avgPrice_of = average catPrices,
       minPrice_of = (if length catPrices \<noteq> 0
                      then math_min (map (\<lambda>p. price_or_zero (price p)) catPrices) else Fin 0),
       maxPrice_of = (if length catPrices \<noteq> 0
                      then math_max (map (\<lambda>p. price_or_zero (price p)) catPrices) else Fin 0)\<rparr>)"

text \<open>
  Per category, in \<^verbatim>\<open>populateCategoryInsights\<close> of \<^verbatim>\<open>user-dashboard.js\<close>, which shows a
  count and an average:
  \<^verbatim>\<open>
  const catPrices = allPrices.filter(p => p.category_id === cat.id);
  const avgPrice = catPrices.length
    ? (catPrices.reduce((sum, p) => sum + (p.price || 0), 0) / catPrices.length).toFixed(2)
    : 0;
  const count = catPrices.length;
  ... Total Prices: ${count} ... Average Price: ${formatCurrency(parseFloat(avgPrice))}
  \<close>
  \<open>parseFloat_fixed v\<close> is the number that \<^verbatim>\<open>parseFloat\<close> reads back from the text
  \<^verbatim>\<open>v.toFixed(2)\<close>: the value rounded to hundredths, or the non-finite number itself.
\<close>

fun parseFloat_fixed :: "jsnum \<Rightarrow> jsnum" where
  "parseFloat_fixed (Fin x) = Fin ((if x < 0 then - 1 else 1) * of_nat (hundredths x) / 100)"
| "parseFloat_fixed v = v"

record category_line =
  total_prices :: nat
  average_price :: string

definition populateCategoryInsights :: "int option \<Rightarrow> price_record list \<Rightarrow> category_line" where
  "populateCategoryInsights cat allPrices =
     (let catPrices = filter (\<lambda>p. category_id p = cat) allPrices;
          avgPrice = (if length catPrices \<noteq> 0
                      then parseFloat_fixed (js_div_count (price_sum catPrices) (length catPrices))
                      else Fin 0);
          count' = length catPrices
      in \<lparr>total_prices = count', average_price = formatCurrency (IsNumber avgPrice)\<rparr>)"

subsection \<open>Timers: the debounced search and \<^verbatim>\<open>debounce\<close>\<close>

text \<open>
  The browser side of the two debouncing idioms. Time is a count of milliseconds. A
  pending timer is its handle, the instant it is due and its callback; the callbacks are
  the arrow function of \<^verbatim>\<open>setupFilters\<close>, which reads the search field when it runs,
  and the closure \<^verbatim>\<open>later\<close> of \<^verbatim>\<open>debounce\<close>, which holds the arguments of the call that
  created it. The state also holds the two \<^verbatim>\<open>timeout\<close> variables, the text of the
  search field, and a log of the runs: the texts on which the search was evaluated, and
  the arguments with which the debounced function was called.
\<close>

datatype callback = SearchTimer | Later string

record browser =
  clock :: nat
  next_handle :: nat
  pending :: "(nat \<times> nat \<times> callback) list"
  search_timeout :: "nat option"
  debounce_timeout :: "nat option"
  globalSearch :: string
  evaluated :: "string list"
  func_calls :: "string list"

text \<open>\<^verbatim>\<open>clearTimeout(h)\<close>: nothing for \<^verbatim>\<open>undefined\<close> or a handle no longer pending.
  \<^verbatim>\<open>setTimeout(cb, delay)\<close>: a fresh handle, due \<open>delay\<close> from now.\<close>

definition clearTimeout :: "nat option \<Rightarrow> browser \<Rightarrow> browser" where
  "clearTimeout h b =
     (case h of
        None \<Rightarrow> b
      | Some i \<Rightarrow> b\<lparr>pending := filter (\<lambda>t. fst t \<noteq> i) (pending b)\<rparr>)"

definition setTimeout :: "callback \<Rightarrow> nat \<Rightarrow> browser \<Rightarrow> nat \<times> browser" where
  "setTimeout cb delay b =
     (next_handle b,
      b\<lparr>pending := pending b @ [(next_handle b, clock b + delay, cb)],
        next_handle := Suc (next_handle b)\<rparr>)"

text \<open>
  The listener of the search field (the field already holds the new text):
  \<^verbatim>\<open>
  searchInput?.addEventListener('input', () => {
    clearTimeout(timeout);
    timeout = setTimeout(() => { const q = searchInput.value.trim().toLowerCase(); ... }, 200);
  });
  \<close>
\<close>

definition on_search_input :: "string \<Rightarrow> browser \<Rightarrow> browser" where
  "on_search_input field_text b =
     (let b1 = b\<lparr>globalSearch := field_text\<rparr>;
          b2 = clearTimeout (search_timeout b1) b1;
          (h, b3) = setTimeout SearchTimer 200 b2
      in b3\<lparr>search_timeout := Some h\<rparr>)"

text \<open>
  \<^verbatim>\<open>
  export function debounce(func, wait) {
    let timeout;
    return function executedFunction(...args) {
      const later = () => { clearTimeout(timeout); func(...args); };
      clearTimeout(timeout);
      timeout = setTimeout(later, wait);
    };
  }
  \<close>
\<close>

definition executedFunction :: "nat \<Rightarrow> string \<Rightarrow> browser \<Rightarrow> browser" where
  "executedFunction wait args b =
     (let b1 = clearTimeout (debounce_timeout b) b;
          (h, b2) = setTimeout (Later args) wait b1
      in b2\<lparr>debounce_timeout := Some h\<rparr>)"

fun run_callback :: "callback \<Rightarrow> browser \<Rightarrow> browser" where
  "run_callback SearchTimer b = b\<lparr>evaluated := evaluated b @ [globalSearch b]\<rparr>"
| "run_callback (Later args) b =
     (let b1 = clearTimeout (debounce_timeout b) b
      in b1\<lparr>func_calls := func_calls b1 @ [args]\<rparr>)"

text \<open>The timers that are due by the instant \<open>t\<close> run one after the other, the one due
  first going first (the older one among equals); a callback runs with its own timer
  already off the list.\<close>

definition next_due :: "nat \<Rightarrow> (nat \<times> nat \<times> callback) list \<Rightarrow> (nat \<times> nat \<times> callback) option" where
  "next_due t ps =
     (case sort_key (\<lambda>p. fst (snd p)) (filter (\<lambda>p. fst (snd p) \<le> t) ps) of
        [] \<Rightarrow> None
      | p # _ \<Rightarrow> Some p)"

function run_due :: "nat \<Rightarrow> browser \<Rightarrow> browser" where
  "run_due t b =
     (case next_due t (pending b) of
        None \<Rightarrow> b
      | Some p \<Rightarrow>
          run_due t (run_callback (snd (snd p))
                       (b\<lparr>pending := filter (\<lambda>q. fst q \<noteq> fst p) (pending b)\<rparr>)))"
  by pat_completeness auto

lemma next_due_mem:
  assumes "next_due t ps = Some p"
  shows "p \<in> set ps"
proof -
  let ?due = "sort_key (\<lambda>p. fst (snd p)) (filter (\<lambda>p. fst (snd p) \<le> t) ps)"
  from assms obtain rest where "?due = p # rest"
    by (auto simp: next_due_def split: list.splits)
  then have "p \<in> set ?due" by simp
  then show ?thesis by simp
qed

lemma pending_run_callback: "length (pending (run_callback cb b)) \<le> length (pending b)"
  by (cases cb) (auto simp: clearTimeout_def Let_def split: option.splits)

termination run_due
proof (relation "measure (\<lambda>(t, b). length (pending b))")
  show "wf (measure (\<lambda>(t, b). length (pending b)))" by simp
next
  fix t and b :: browser and p :: "nat \<times> nat \<times> callback"
  let ?b' = "b\<lparr>pending := filter (\<lambda>q. fst q \<noteq> fst p) (pending b)\<rparr>"
  assume "next_due t (pending b) = Some p"
  then have "p \<in> set (pending b)" by (rule next_due_mem)
  then have "length (pending ?b') < length (pending b)"
    using length_filter_less [of p "pending b" "\<lambda>q. fst q \<noteq> fst p"] by simp
  moreover have "length (pending (run_callback (snd (snd p)) ?b')) \<le> length (pending ?b')"
    by (rule pending_run_callback)
  ultimately show "((t, run_callback (snd (snd p)) ?b'), (t, b))
      \<in> measure (\<lambda>(t, b). length (pending b))"
    by simp
qed

declare run_due.simps [simp del]

definition advance :: "nat \<Rightarrow> browser \<Rightarrow> browser" where
  "advance t b = (run_due t b)\<lparr>clock := max (clock b) t\<rparr>"

text \<open>A session: events with the instants at which they happen. Before an event is
  handled, the timers due by then have run.\<close>

datatype ui_event = TypeSearch string | CallDebounced string

fun handle_event :: "nat \<Rightarrow> ui_event \<Rightarrow> browser \<Rightarrow> browser" where
  "handle_event wait (TypeSearch field_text) b = on_search_input field_text b"
| "handle_event wait (CallDebounced args) b = executedFunction wait args b"

fun play :: "nat \<Rightarrow> (nat \<times> ui_event) list \<Rightarrow> browser \<Rightarrow> browser" where
  "play wait [] b = b"
| "play wait ((t, e) # es) b = play wait es (handle_event wait e (advance t b))"

text \<open>A page just loaded: no timer pending, both \<^verbatim>\<open>timeout\<close> variables undefined,
  nothing run yet.\<close>

definition fresh :: "browser \<Rightarrow> bool" where
  "fresh b = (pending b = [] \<and> search_timeout b = None \<and> debounce_timeout b = None
              \<and> evaluated b = [] \<and> func_calls b = [])"

text \<open>Events that come each within \<open>window\<close> of the one before.\<close>

fun within_window :: "nat \<Rightarrow> nat list \<Rightarrow> bool" where
  "within_window window (t # t' # ts) = (t \<le> t' \<and> t' < t + window \<and> within_window window (t' # ts))"
| "within_window window ts = True"

text \<open>The states between two events of a burst. While typing goes on, each keystroke
  within 200 ms of the one before, exactly one timer is pending, due 200 ms after the
  last keystroke, and nothing has been evaluated.\<close>

definition one_search_pending :: "browser \<Rightarrow> bool" where
  "one_search_pending b =
     (\<exists>h. pending b = [(h, clock b + 200, SearchTimer)] \<and> search_timeout b = Some h
          \<and> evaluated b = [])"

text \<open>The same for a function wrapped by \<^verbatim>\<open>debounce(func, wait)\<close>.\<close>

definition one_call_pending :: "nat \<Rightarrow> browser \<Rightarrow> bool" where
  "one_call_pending wait b =
     (\<exists>h args. pending b = [(h, clock b + wait, Later args)] \<and> debounce_timeout b = Some h
          \<and> func_calls b = [])"

definition pending_args :: "browser \<Rightarrow> string" where
  "pending_args b = (case pending b of [(h, due, Later args)] \<Rightarrow> args | _ \<Rightarrow> [])"

subsection \<open>Concrete inputs\<close>

text \<open>The scenario of the specification: two records for rice, at 500 and at 1500, and
  a rule for "rice" at 1000; a record that has a brand; pages and a browser just
  loaded.\<close>

definition rice_500 :: price_record where
  "rice_500 = \<lparr>category_id = Some 1, name = Some ''Rice'', brand = None,
               price = Num (Fin 500), retailer = None, location = None\<rparr>"

definition rice_1500 :: price_record where
  "rice_1500 = \<lparr>category_id = Some 1, name = Some ''Rice'', brand = None,
                price = Num (Fin 1500), retailer = None, location = None\<rparr>"

definition scenario_prices :: "price_record list" where
  "scenario_prices = [rice_500, rice_1500]"

definition rice_rule :: alert where
  "rice_rule = \<lparr>alert_id = 1, itemName = ''rice'', threshold = Fin 1000,
                triggered = False, createdAt = None\<rparr>"

definition empty_page :: page where
  "empty_page = \<lparr>priceAlerts = [], localStorage = Map.empty, store_available = True,
                 toasts = [], alert_boxes = [], thrown = []\<rparr>"

definition rice_page :: page where
  "rice_page = empty_page\<lparr>priceAlerts := [rice_rule]\<rparr>"

text \<open>A page on which a rule without bound was saved: the threshold field read
  \<^verbatim>\<open>Infinity\<close>, which \<^verbatim>\<open>parseFloat\<close> returns as the number \<open>+Infinity\<close>.\<close>

definition unbounded_page :: page where
  "unbounded_page = savePriceAlert ''rice'' PosInf 2 empty_page"

definition branded_rice :: price_record where
  "branded_rice = \<lparr>category_id = Some 1, name = Some ''Rice'', brand = Some ''Mama Gold'',
                   price = Num (Fin 500), retailer = Some ''Shoprite'', location = Some ''Akoka''\<rparr>"

definition loaded_browser :: browser where
  "loaded_browser = \<lparr>clock = 0, next_handle = 0, pending = [], search_timeout = None,
                     debounce_timeout = None, globalSearch = [], evaluated = [],
                     func_calls = []\<rparr>"

section \<open>Properties\<close>

subsection \<open>Decimal digits\<close>

lemma digits_of_small: "n < 10 \<Longrightarrow> digits_of n = [''0123456789'' ! n]"
  by (simp add: digits_of.simps [of n])

lemma digits_of_large:
  "\<not> n < 10 \<Longrightarrow> digits_of n = digits_of (n div 10) @ [''0123456789'' ! (n mod 10)]"
  by (simp add: digits_of.simps [of n])

subsection \<open>The password hash\<close>

lemma toInt32_shift: "toInt32 x = (x + 2 ^ 31) mod 2 ^ 32 - 2 ^ 31"
proof -
  define m where "m = x mod 2 ^ 32"
  have m: "0 \<le> m" "m < 2 ^ 32" by (simp_all add: m_def)
  have e: "(x + 2 ^ 31) mod 2 ^ 32 = (m + 2 ^ 31) mod 2 ^ 32"
    unfolding m_def by (simp add: mod_add_left_eq)
  show ?thesis
  proof (cases "m \<ge> 2 ^ 31")
    case True
    have "(m + 2 ^ 31) mod 2 ^ 32 = (m + 2 ^ 31 - 2 ^ 32) mod 2 ^ 32"
      by (metis mod_diff_right_eq mod_self diff_zero)
    also have "\<dots> = m + 2 ^ 31 - 2 ^ 32"
      using True m by (intro mod_pos_pos_trivial) simp_all
    finally show ?thesis using True e by (simp add: toInt32_def Let_def m_def)
  next
    case False
    have "(m + 2 ^ 31) mod 2 ^ 32 = m + 2 ^ 31"
      using False m by (intro mod_pos_pos_trivial) simp_all
    then show ?thesis using False e by (simp add: toInt32_def Let_def m_def)
  qed
qed

lemma toInt32_sint: "toInt32 x = sint (word_of_int x :: 32 word)"
  by (simp add: toInt32_shift int_word_sint)

lemma hash_step_refines:
  "js_band ((js_shl (sint h) 5 - sint h) + int c) ((js_shl (sint h) 5 - sint h) + int c)
     = sint (rolling_step h c)"
  by (simp add: js_band_def js_shl_def toInt32_sint rolling_step_def push_bit_eq_mult)

lemma hash_loop_refines: "hash_loop (sint h) cs = sint (foldl rolling_step h cs)"
  by (induction cs arbitrary: h) (simp_all add: Let_def hash_step_refines)

lemma small_hash_loop_eq: "small_hash_loop h cs = hash_loop h cs"
  by (induction cs arbitrary: h) (simp_all add: Let_def)

text \<open>
  C9. The two \<^verbatim>\<open>hashPassword\<close> implementations return the same string on every input,
  and that string is the decimal rendering of the signed 32-bit value of the rolling
  recurrence \<open>h \<leftarrow> ((h << 5) - h) + charCode\<close> started at 0; the empty string hashes to
  \<open>''0''\<close>.
\<close>

theorem hashPassword_implementations_agree:
  "hashPassword password = small_hashPassword password
   \<and> hashPassword password = int_toString (sint (rolling_hash password))
   \<and> hashPassword [] = ''0''"
proof -
  have "hash_loop 0 password = sint (rolling_hash password)"
    using hash_loop_refines [of 0 password] by (simp add: rolling_hash_def)
  then show ?thesis
    by (simp add: hashPassword_def small_hashPassword_def small_hash_loop_eq int_toString_def
        digits_of_small)
qed

subsection \<open>Alert evaluation\<close>

lemma alert_hit_fired [simp]: "alert_hit (a\<lparr>triggered := t\<rparr>) = alert_hit a"
  by (rule ext) (simp add: alert_hit_def split: option.splits)

lemma forEach_alert_map:
  "forEach_alert S rules =
     (map (\<lambda>a. fst (check_alert S a)) rules, concat (map (\<lambda>a. snd (check_alert S a)) rules))"
  by (induction rules) (simp_all add: Let_def split: prod.splits)

lemma forEach_alert_append:
  "forEach_alert S (xs @ ys) =
     (fst (forEach_alert S xs) @ fst (forEach_alert S ys),
      snd (forEach_alert S xs) @ snd (forEach_alert S ys))"
  by (simp add: forEach_alert_map)

lemma check_alert_again:
  "check_alert S (fst (check_alert S a)) = (fst (check_alert S a), [])"
  by (simp add: check_alert_def split: option.splits)

lemma forEach_alert_again:
  "forEach_alert S (fst (forEach_alert S rules)) = (fst (forEach_alert S rules), [])"
  by (simp add: forEach_alert_map check_alert_again comp_def)

lemma checkPriceAlerts_fields:
  "priceAlerts (checkPriceAlerts S pg) = fst (forEach_alert S (priceAlerts pg))"
  "toasts (checkPriceAlerts S pg) = toasts pg @ snd (forEach_alert S (priceAlerts pg))"
  "localStorage (checkPriceAlerts S pg)
     = (if store_available pg
        then (localStorage pg)(''priceAlerts''
               \<mapsto> stringify_alerts (fst (forEach_alert S (priceAlerts pg))))
        else localStorage pg)"
  "alert_boxes (checkPriceAlerts S pg) = alert_boxes pg"
  "thrown (checkPriceAlerts S pg)
     = (if store_available pg then thrown pg else thrown pg @ [QuotaExceededError])"
  "store_available (checkPriceAlerts S pg) = store_available pg"
  by (simp_all add: checkPriceAlerts_def setItem_def write_or_throw_def Let_def
      split: prod.splits)

lemma qualifies_hit: "qualifies r p \<Longrightarrow> alert_hit r p"
  by (auto simp: qualifies_def alert_hit_def split: option.splits price_val.splits)

lemma find_hit:
  assumes "p \<in> set S" and "alert_hit r p"
  shows "\<exists>hit. find (alert_hit r) S = Some hit \<and> hit \<in> set S \<and> alert_hit r hit"
proof (cases "find (alert_hit r) S")
  case None
  with assms show ?thesis by (auto simp: find_None_iff)
next
  case (Some hit)
  then show ?thesis by (auto simp: find_Some_iff)
qed

text \<open>
  C1. Let the rule \<open>r\<close> stand anywhere in the rule list, untriggered, and let some record
  of the snapshot \<open>S\<close> qualify for it (same name up to case, a numeric price not above
  the threshold). Then one evaluation leaves \<open>r\<close> with \<open>triggered = True\<close> at its place
  and shows exactly one message for it, between the messages of the rules before and
  after it; a second evaluation on the same snapshot changes no rule and shows nothing.
  The scenario of the specification (rice at 500 and 1500, a rule at 1000) follows as an
  instance.
\<close>

theorem alert_fires_once:
  assumes rules: "priceAlerts pg = before @ r # after"
    and untriggered: "triggered r = False"
    and qualifying: "p \<in> set S" "qualifies r p"
  shows "\<exists>hit. find (alert_hit r) S = Some hit
      \<and> priceAlerts (checkPriceAlerts S pg)
          = fst (forEach_alert S before) @ r\<lparr>triggered := True\<rparr> # fst (forEach_alert S after)
      \<and> toasts (checkPriceAlerts S pg)
          = toasts pg @ snd (forEach_alert S before) @ [toast_text r hit]
              @ snd (forEach_alert S after)
      \<and> priceAlerts (checkPriceAlerts S (checkPriceAlerts S pg))
          = priceAlerts (checkPriceAlerts S pg)
      \<and> toasts (checkPriceAlerts S (checkPriceAlerts S pg)) = toasts (checkPriceAlerts S pg)"
proof -
  from qualifying obtain hit where hit: "find (alert_hit r) S = Some hit"
    using find_hit [OF qualifying(1) qualifies_hit] by blast
  have one: "check_alert S r = (r\<lparr>triggered := True\<rparr>, [toast_text r hit])"
    using untriggered hit by (simp add: check_alert_def)
  have first: "forEach_alert S (priceAlerts pg) =
      (fst (forEach_alert S before) @ r\<lparr>triggered := True\<rparr> # fst (forEach_alert S after),
       snd (forEach_alert S before) @ [toast_text r hit] @ snd (forEach_alert S after))"
    unfolding rules forEach_alert_append by (simp add: one Let_def split: prod.splits)
  have again:
    "priceAlerts (checkPriceAlerts S (checkPriceAlerts S pg)) = priceAlerts (checkPriceAlerts S pg)"
    "toasts (checkPriceAlerts S (checkPriceAlerts S pg)) = toasts (checkPriceAlerts S pg)"
    by (simp_all add: checkPriceAlerts_fields forEach_alert_again)
  have once:
    "priceAlerts (checkPriceAlerts S pg)
       = fst (forEach_alert S before) @ r\<lparr>triggered := True\<rparr> # fst (forEach_alert S after)"
    "toasts (checkPriceAlerts S pg)
       = toasts pg @ snd (forEach_alert S before) @ [toast_text r hit]
           @ snd (forEach_alert S after)"
    by (simp_all add: checkPriceAlerts_fields first)
  show ?thesis
    using hit once again by blast
qed

theorem alert_scenario:
  "priceAlerts (checkPriceAlerts scenario_prices rice_page) = [rice_rule\<lparr>triggered := True\<rparr>]
   \<and> toasts (checkPriceAlerts scenario_prices rice_page) = [toast_text rice_rule rice_500]
   \<and> priceAlerts (checkPriceAlerts scenario_prices (checkPriceAlerts scenario_prices rice_page))
        = [rice_rule\<lparr>triggered := True\<rparr>]
   \<and> toasts (checkPriceAlerts scenario_prices (checkPriceAlerts scenario_prices rice_page))
        = [toast_text rice_rule rice_500]"
proof -
  have rules: "priceAlerts rice_page = [] @ rice_rule # []"
    by (simp add: rice_page_def)
  have untriggered: "triggered rice_rule = False"
    by (simp add: rice_rule_def)
  have member: "rice_500 \<in> set scenario_prices"
    by (simp add: scenario_prices_def)
  have qualifying: "qualifies rice_rule rice_500"
    by code_simp
  have found: "find (alert_hit rice_rule) scenario_prices = Some rice_500"
    by code_simp
  show ?thesis
    using alert_fires_once [OF rules untriggered member qualifying] found
    by (simp add: rice_page_def empty_page_def)
qed

lemma check_alert_flag: "fst (check_alert S a) = flag_updated S a"
proof (cases "find (alert_hit a) S")
  case None
  then have "\<not> (\<exists>p \<in> set S. alert_hit a p)"
    by (auto simp: find_None_iff)
  with None show ?thesis
    by (simp add: check_alert_def flag_updated_def)
next
  case (Some hit)
  then have "\<exists>p \<in> set S. alert_hit a p"
    by (auto simp: find_Some_iff)
  with Some show ?thesis
    by (simp add: check_alert_def flag_updated_def)
qed

lemma finite_threshold_flag [simp]: "finite_threshold (flag_updated S a) = finite_threshold a"
  by (simp add: finite_threshold_def flag_updated_def)

lemma read_alert_json:
  assumes "finite_threshold a"
  shows "read_alert (alert_json a) = Some a"
proof -
  from assms obtain x where x: "threshold a = Fin x"
    by (auto simp: finite_threshold_def split: jsnum.splits)
  show ?thesis
  proof (cases "createdAt a")
    case None
    with x show ?thesis
      by (simp add: read_alert_def alert_json_def)
  next
    case (Some stamp)
    with x show ?thesis
      by (simp add: read_alert_def alert_json_def)
  qed
qed

lemma read_alerts_stringify:
  "list_all finite_threshold rules \<Longrightarrow> read_alerts (stringify_alerts rules) = Some rules"
proof -
  assume "list_all finite_threshold rules"
  then have "those (map read_alert (map alert_json rules)) = Some rules"
    by (induction rules) (simp_all add: read_alert_json)
  then show ?thesis
    by (simp add: read_alerts_def stringify_alerts_def)
qed

text \<open>
  C3, as stated, fails on a rule whose threshold is not finite. \<^verbatim>\<open>savePriceAlert\<close>
  accepts the threshold \<open>+Infinity\<close> (its guard is \<^verbatim>\<open>Number.isNaN\<close>); the evaluation then
  writes the rule with \<^verbatim>\<open>"threshold": null\<close>, and what is in the store is no longer the
  rule that is in memory.
\<close>

theorem infinite_threshold_written_as_null:
  "priceAlerts (checkPriceAlerts scenario_prices unbounded_page)
     = [\<lparr>alert_id = 2, itemName = ''rice'', threshold = PosInf, triggered = True,
         createdAt = None\<rparr>]
   \<and> localStorage (checkPriceAlerts scenario_prices unbounded_page) ''priceAlerts''
     = Some (JArray [JObject [(''id'', JNumber 2), (''itemName'', JString ''rice''),
                              (''threshold'', JNull), (''triggered'', JBool True)]])
   \<and> read_alerts (JArray [JObject [(''id'', JNumber 2), (''itemName'', JString ''rice''),
                                  (''threshold'', JNull), (''triggered'', JBool True)]])
     = None"
proof -
  have name: "trim ''rice'' = ''rice''"
    by code_simp
  have saved: "priceAlerts unbounded_page
      = [\<lparr>alert_id = 2, itemName = ''rice'', threshold = PosInf, triggered = False,
          createdAt = None\<rparr>]"
    "store_available unbounded_page"
    by (simp_all add: unbounded_page_def savePriceAlert_def name Let_def empty_page_def
        setItem_def write_or_throw_def)
  have hit: "alert_hit \<lparr>alert_id = 2, itemName = ''rice'', threshold = PosInf,
      triggered = False, createdAt = None\<rparr> rice_500"
    by code_simp
  have listed: "rice_500 \<in> set scenario_prices"
    by (simp add: scenario_prices_def)
  from hit listed have found: "\<exists>p \<in> set scenario_prices.
      alert_hit \<lparr>alert_id = 2, itemName = ''rice'', threshold = PosInf,
        triggered = False, createdAt = None\<rparr> p"
    by (rule rev_bexI [rotated])
  have flagged: "flag_updated scenario_prices \<lparr>alert_id = 2, itemName = ''rice'',
      threshold = PosInf, triggered = False, createdAt = None\<rparr>
      = \<lparr>alert_id = 2, itemName = ''rice'', threshold = PosInf, triggered = True,
         createdAt = None\<rparr>"
    apply (subst flag_updated_def)
    apply (simp only: found)
    apply simp
    done
  have rules: "priceAlerts (checkPriceAlerts scenario_prices unbounded_page)
      = [\<lparr>alert_id = 2, itemName = ''rice'', threshold = PosInf, triggered = True,
          createdAt = None\<rparr>]"
    by (simp add: checkPriceAlerts_fields forEach_alert_map check_alert_flag saved flagged)
  have stored: "localStorage (checkPriceAlerts scenario_prices unbounded_page) ''priceAlerts''
      = Some (JArray [JObject [(''id'', JNumber 2), (''itemName'', JString ''rice''),
                               (''threshold'', JNull), (''triggered'', JBool True)]])"
    by (simp add: checkPriceAlerts_fields forEach_alert_map check_alert_flag saved flagged
        stringify_alerts_def alert_json_def)
  have unread: "read_alerts (JArray [JObject [(''id'', JNumber 2), (''itemName'', JString ''rice''),
                                  (''threshold'', JNull), (''triggered'', JBool True)]])
      = None"
    by (simp add: read_alerts_def read_alert_def)
  from rules stored unread show ?thesis by blast
qed

text \<open>
  C3, amended. Every evaluation leaves in memory the full rule list, in its order, each
  rule with its flag updated. If the store accepts the write, then, whether or not a rule
  fired, the store holds under \<^verbatim>\<open>priceAlerts\<close> the JSON encoding of that list, and when
  every threshold is finite the encoding reads back as exactly the list in memory (a
  threshold that is not finite is written as \<^verbatim>\<open>null\<close>). If the store refuses the write,
  the store stays as it was, the rules in memory keep their updated flags, and the
  exception leaves the handler.
\<close>

theorem rules_written:
  "priceAlerts (checkPriceAlerts S pg) = map (flag_updated S) (priceAlerts pg)
   \<and> (store_available pg \<longrightarrow>
        localStorage (checkPriceAlerts S pg) ''priceAlerts''
          = Some (stringify_alerts (priceAlerts (checkPriceAlerts S pg)))
        \<and> thrown (checkPriceAlerts S pg) = thrown pg
        \<and> (list_all finite_threshold (priceAlerts pg) \<longrightarrow>
             read_alerts (stringify_alerts (priceAlerts (checkPriceAlerts S pg)))
               = Some (priceAlerts (checkPriceAlerts S pg))))
   \<and> (\<not> store_available pg \<longrightarrow>
        localStorage (checkPriceAlerts S pg) = localStorage pg
        \<and> thrown (checkPriceAlerts S pg) = thrown pg @ [QuotaExceededError])"
proof -
  have rules: "priceAlerts (checkPriceAlerts S pg) = map (flag_updated S) (priceAlerts pg)"
    by (simp add: checkPriceAlerts_fields forEach_alert_map check_alert_flag)
  have reads_back: "read_alerts (stringify_alerts (priceAlerts (checkPriceAlerts S pg)))
      = Some (priceAlerts (checkPriceAlerts S pg))"
    if "list_all finite_threshold (priceAlerts pg)"
  proof (rule read_alerts_stringify)
    from that show "list_all finite_threshold (priceAlerts (checkPriceAlerts S pg))"
      by (simp add: rules list_all_iff)
  qed
  from rules reads_back show ?thesis
    by (simp add: checkPriceAlerts_fields)
qed

theorem rules_written_witness:
  "localStorage (checkPriceAlerts scenario_prices rice_page) ''priceAlerts''
     = Some (JArray [JObject [(''id'', JNumber 1), (''itemName'', JString ''rice''),
                              (''threshold'', JNumber 1000), (''triggered'', JBool True)]])
   \<and> read_alerts (JArray [JObject [(''id'', JNumber 1), (''itemName'', JString ''rice''),
                                  (''threshold'', JNumber 1000), (''triggered'', JBool True)]])
     = Some [rice_rule\<lparr>triggered := True\<rparr>]
   \<and> priceAlerts (checkPriceAlerts scenario_prices (rice_page\<lparr>store_available := False\<rparr>))
     = [rice_rule\<lparr>triggered := True\<rparr>]
   \<and> localStorage (checkPriceAlerts scenario_prices (rice_page\<lparr>store_available := False\<rparr>))
        ''priceAlerts'' = None
   \<and> thrown (checkPriceAlerts scenario_prices (rice_page\<lparr>store_available := False\<rparr>))
     = [QuotaExceededError]"
proof -
  have hit: "alert_hit rice_rule rice_500"
    by code_simp
  then have flagged: "flag_updated scenario_prices rice_rule = rice_rule\<lparr>triggered := True\<rparr>"
    by (auto simp: flag_updated_def scenario_prices_def)
  have json: "stringify_alerts [rice_rule\<lparr>triggered := True\<rparr>]
      = JArray [JObject [(''id'', JNumber 1), (''itemName'', JString ''rice''),
                         (''threshold'', JNumber 1000), (''triggered'', JBool True)]]"
    by (simp add: stringify_alerts_def alert_json_def rice_rule_def)
  have available: "store_available rice_page" "finite_threshold rice_rule"
    "priceAlerts rice_page = [rice_rule]" "thrown rice_page = []"
    "localStorage rice_page = Map.empty"
    by (simp_all add: rice_page_def empty_page_def finite_threshold_def rice_rule_def)
  have refused: "\<not> store_available (rice_page\<lparr>store_available := False\<rparr>)"
    by simp
  from rules_written [of scenario_prices rice_page]
  have fired: "priceAlerts (checkPriceAlerts scenario_prices rice_page)
      = [rice_rule\<lparr>triggered := True\<rparr>]"
    by (simp add: available flagged)
  from rules_written [of scenario_prices rice_page]
  have accepted: "localStorage (checkPriceAlerts scenario_prices rice_page) ''priceAlerts''
      = Some (stringify_alerts [rice_rule\<lparr>triggered := True\<rparr>])"
    "read_alerts (stringify_alerts [rice_rule\<lparr>triggered := True\<rparr>])
      = Some [rice_rule\<lparr>triggered := True\<rparr>]"
    by (simp_all add: available fired flagged)
  from rules_written [of scenario_prices "rice_page\<lparr>store_available := False\<rparr>"]
  have kept_back:
    "priceAlerts (checkPriceAlerts scenario_prices (rice_page\<lparr>store_available := False\<rparr>))
      = [rice_rule\<lparr>triggered := True\<rparr>]"
    "localStorage (checkPriceAlerts scenario_prices (rice_page\<lparr>store_available := False\<rparr>))
        ''priceAlerts'' = None"
    "thrown (checkPriceAlerts scenario_prices (rice_page\<lparr>store_available := False\<rparr>))
      = [QuotaExceededError]"
    by (simp_all add: available flagged)
  from accepted kept_back show ?thesis
    by (simp add: json)
qed

text \<open>
  C7. An attempt to create an alert with an empty (or blank) item name, or with a
  threshold that does not parse, is answered with the message and changes neither the
  rules in memory nor the store.
\<close>

theorem malformed_alert_rejected:
  assumes "trim name_field = [] \<or> parsed_threshold = NaN"
  shows "priceAlerts (savePriceAlert name_field parsed_threshold now pg) = priceAlerts pg
    \<and> localStorage (savePriceAlert name_field parsed_threshold now pg) = localStorage pg
    \<and> toasts (savePriceAlert name_field parsed_threshold now pg) = toasts pg
    \<and> alert_boxes (savePriceAlert name_field parsed_threshold now pg)
        = alert_boxes pg @ [''Please fill all alert fields'']"
  using assms by (auto simp: savePriceAlert_def Let_def)

theorem malformed_alert_rejected_witness:
  "priceAlerts (savePriceAlert ''  '' (Fin 1000) 7 rice_page) = priceAlerts rice_page
   \<and> localStorage (savePriceAlert ''  '' (Fin 1000) 7 rice_page) = localStorage rice_page
   \<and> alert_boxes (savePriceAlert ''  '' (Fin 1000) 7 rice_page) = [''Please fill all alert fields'']
   \<and> priceAlerts (savePriceAlert ''rice'' NaN 7 rice_page) = priceAlerts rice_page
   \<and> localStorage (savePriceAlert ''rice'' NaN 7 rice_page) = localStorage rice_page
   \<and> alert_boxes (savePriceAlert ''rice'' NaN 7 rice_page) = [''Please fill all alert fields'']"
proof -
  have blank: "trim ''  '' = [] \<or> Fin 1000 = NaN"
    by code_simp
  have unparsed: "trim ''rice'' = [] \<or> NaN = NaN"
    by simp
  show ?thesis
    using malformed_alert_rejected [OF blank, of 7 rice_page]
      malformed_alert_rejected [OF unparsed, of 7 rice_page]
    by (simp add: rice_page_def empty_page_def)
qed

subsection \<open>The life of a rule\<close>

lemma forEach_alert_revised_map:
  "forEach_alert_revised S rules =
     (map (\<lambda>a. fst (check_alert_revised S a)) rules,
      concat (map (\<lambda>a. snd (check_alert_revised S a)) rules))"
  by (induction rules) (simp_all add: Let_def split: prod.splits)

lemma may_fire_refl: "may_fire a a"
  by (simp add: may_fire_def)

lemma may_fire_trans: "may_fire a b \<Longrightarrow> may_fire b c \<Longrightarrow> may_fire a c"
  by (auto simp: may_fire_def)

lemma may_fire_id: "may_fire a b \<Longrightarrow> alert_id b = alert_id a"
  by (auto simp: may_fire_def)

lemma may_fire_triggered: "may_fire a b \<Longrightarrow> triggered a \<Longrightarrow> b = a"
  by (auto simp: may_fire_def)

lemma check_alert_may_fire: "may_fire a (fst (check_alert S a))"
  by (simp add: check_alert_def may_fire_def split: option.splits)

lemma check_alert_revised_may_fire: "may_fire a (fst (check_alert_revised S a))"
  by (simp add: check_alert_revised_def may_fire_def split: option.splits)

lemma list_all2_same: "(\<And>x. x \<in> set xs \<Longrightarrow> R x x) \<Longrightarrow> list_all2 R xs xs"
  by (induction xs) simp_all

lemma list_all2_map_right: "(\<And>x. x \<in> set xs \<Longrightarrow> R x (f x)) \<Longrightarrow> list_all2 R xs (map f xs)"
  by (induction xs) simp_all

lemma list_all2_filter_both:
  assumes "list_all2 R xs ys" and "\<And>x y. R x y \<Longrightarrow> P x = P y"
  shows "list_all2 R (filter P xs) (filter P ys)"
  using assms by (induction xs ys rule: list_all2_induct) auto

lemma kept_Nil [simp]: "kept [] rules = rules"
  by (simp add: kept_def)

lemma kept_Cons: "kept (op # ops) rules = kept ops (kept [op] rules)"
  by (auto simp: kept_def intro: filter_cong)

lemma kept_append: "kept ops (xs @ ys) = kept ops xs @ kept ops ys"
  by (simp add: kept_def)

lemma kept_not_delete: "(\<And>d. op \<noteq> DeleteAlert d) \<Longrightarrow> kept [op] rules = rules"
  by (induction rules) (auto simp: kept_def)

lemma kept_delete: "kept [DeleteAlert d] rules = filter (\<lambda>a. alert_id a \<noteq> d) rules"
  by (auto simp: kept_def intro: filter_cong)

lemma kept_may_fire:
  "list_all2 may_fire xs ys \<Longrightarrow> list_all2 may_fire (kept ops xs) (kept ops ys)"
  unfolding kept_def by (rule list_all2_filter_both) (auto dest: may_fire_id)

text \<open>One operation: the rules it leaves are the rules it found, less those it deletes,
  each unchanged or fired, followed by what it created.\<close>

lemma step_evolves:
  "\<exists>olds news. priceAlerts (page_step op pg) = olds @ news
     \<and> list_all2 may_fire (kept [op] (priceAlerts pg)) olds"
proof (cases op)
  case (SavePriceAlert f th now)
  then have "\<exists>news. priceAlerts (page_step op pg) = priceAlerts pg @ news"
    by (simp add: savePriceAlert_def Let_def setItem_def write_or_throw_def)
  then show ?thesis
    using SavePriceAlert by (auto simp: kept_not_delete intro: list_all2_same may_fire_refl)
next
  case (CheckPriceAlerts S)
  then have "priceAlerts (page_step op pg) = map (\<lambda>a. fst (check_alert S a)) (priceAlerts pg) @ []"
    by (simp add: checkPriceAlerts_fields forEach_alert_map)
  moreover have "list_all2 may_fire (priceAlerts pg) (map (\<lambda>a. fst (check_alert S a)) (priceAlerts pg))"
    by (rule list_all2_map_right) (rule check_alert_may_fire)
  ultimately show ?thesis
    using CheckPriceAlerts by (auto simp: kept_not_delete simp del: append_Nil2)
next
  case (SavePriceAlertRevised f th now stamp)
  then have "\<exists>news. priceAlerts (page_step op pg) = priceAlerts pg @ news"
    by (simp add: savePriceAlert_revised_def Let_def setItem_def)
  then show ?thesis
    using SavePriceAlertRevised by (auto simp: kept_not_delete intro: list_all2_same may_fire_refl)
next
  case (CheckPriceAlertsRevised S)
  then have "priceAlerts (page_step op pg)
      = map (\<lambda>a. fst (check_alert_revised S a)) (priceAlerts pg) @ []"
    by (simp add: checkPriceAlerts_revised_def forEach_alert_revised_map Let_def setItem_def
        write_or_throw_def)
  moreover have "list_all2 may_fire (priceAlerts pg)
      (map (\<lambda>a. fst (check_alert_revised S a)) (priceAlerts pg))"
    by (rule list_all2_map_right) (rule check_alert_revised_may_fire)
  ultimately show ?thesis
    using CheckPriceAlertsRevised by (auto simp: kept_not_delete simp del: append_Nil2)
next
  case (DeleteAlert d)
  then have "priceAlerts (page_step op pg) = kept [op] (priceAlerts pg) @ []"
    by (simp add: deleteAlert_def Let_def kept_delete setItem_def)
  then show ?thesis
    by (metis list_all2_same may_fire_refl)
qed

lemma run_evolves:
  "\<exists>olds news. priceAlerts (run_page ops pg) = olds @ news
     \<and> list_all2 may_fire (kept ops (priceAlerts pg)) olds"
proof (induction ops arbitrary: pg)
  case Nil
  have "priceAlerts pg = priceAlerts pg @ []" by simp
  moreover have "list_all2 may_fire (priceAlerts pg) (priceAlerts pg)"
    by (rule list_all2_same) (rule may_fire_refl)
  ultimately show ?case by (metis kept_Nil run_page.simps(1))
next
  case (Cons op ops)
  obtain olds1 news1 where s1: "priceAlerts (page_step op pg) = olds1 @ news1"
    and r1: "list_all2 may_fire (kept [op] (priceAlerts pg)) olds1"
    using step_evolves by blast
  obtain olds2 news2 where s2: "priceAlerts (run_page ops (page_step op pg)) = olds2 @ news2"
    and r2: "list_all2 may_fire (kept ops (priceAlerts (page_step op pg))) olds2"
    using Cons.IH by blast
  from r2 have "list_all2 may_fire (kept ops olds1 @ kept ops news1) olds2"
    by (simp add: s1 kept_append)
  then obtain o2a o2b where split: "olds2 = o2a @ o2b"
    and ra: "list_all2 may_fire (kept ops olds1) o2a"
    by (auto simp: list_all2_append1)
  have "list_all2 may_fire (kept ops (kept [op] (priceAlerts pg))) (kept ops olds1)"
    using r1 by (rule kept_may_fire)
  then have "list_all2 may_fire (kept (op # ops) (priceAlerts pg)) o2a"
    using ra may_fire_trans unfolding kept_Cons [of op ops]
    by (blast intro: list_all2_trans)
  moreover have "priceAlerts (run_page (op # ops) pg) = o2a @ (o2b @ news2)"
    by (simp add: s2 split)
  ultimately show ?case by blast
qed

lemma triggered_survives:
  assumes "a \<in> set (priceAlerts pg)" "triggered a" "DeleteAlert (alert_id a) \<notin> set ops"
  shows "a \<in> set (priceAlerts (run_page ops pg))"
proof -
  obtain olds news where s: "priceAlerts (run_page ops pg) = olds @ news"
    and r: "list_all2 may_fire (kept ops (priceAlerts pg)) olds"
    using run_evolves by blast
  from assms have "a \<in> set (kept ops (priceAlerts pg))" by (simp add: kept_def)
  then obtain i where i: "i < length (kept ops (priceAlerts pg))" "kept ops (priceAlerts pg) ! i = a"
    by (auto simp: in_set_conv_nth)
  with r have "may_fire a (olds ! i)" "i < length olds"
    by (auto simp: list_all2_conv_all_nth)
  with assms(2) have "olds ! i = a" by (auto dest: may_fire_triggered)
  with \<open>i < length olds\<close> have "a \<in> set olds" by (metis nth_mem)
  then show ?thesis by (simp add: s)
qed

text \<open>
  C6. Over every run of operations of either copy of the page (creation, evaluation,
  deletion), from every state:
  \<^item> the rule list at the end starts with the rules of the beginning that the run did not
    delete, in their order, each one unchanged or with \<open>triggered\<close> gone from false to
    true (never back), and whatever follows them was created during the run;
  \<^item> so a rule that is triggered and is not deleted is still there, triggered;
  \<^item> an evaluation passes over a triggered rule: it leaves it as it is and shows nothing;
  \<^item> a rule is created untriggered.
\<close>

theorem triggered_monotonic:
  "(\<exists>olds news. priceAlerts (run_page ops pg) = olds @ news
        \<and> list_all2 may_fire (kept ops (priceAlerts pg)) olds)
   \<and> (a \<in> set (priceAlerts pg) \<and> triggered a \<and> DeleteAlert (alert_id a) \<notin> set ops
        \<longrightarrow> a \<in> set (priceAlerts (run_page ops pg)))
   \<and> (triggered a \<longrightarrow> check_alert S a = (a, []) \<and> check_alert_revised S a = (a, []))
   \<and> (priceAlerts (savePriceAlert name_field parsed now pg) = priceAlerts pg
        \<or> (\<exists>new. priceAlerts (savePriceAlert name_field parsed now pg) = priceAlerts pg @ [new]
               \<and> triggered new = False))
   \<and> (priceAlerts (savePriceAlert_revised name_field parsed now iso_now pg) = priceAlerts pg
        \<or> (\<exists>new. priceAlerts (savePriceAlert_revised name_field parsed now iso_now pg)
                     = priceAlerts pg @ [new]
               \<and> triggered new = False))"
proof -
  have excluded: "triggered a \<longrightarrow> check_alert S a = (a, []) \<and> check_alert_revised S a = (a, [])"
    by (simp add: check_alert_def check_alert_revised_def)
  have created: "priceAlerts (savePriceAlert name_field parsed now pg) = priceAlerts pg
        \<or> (\<exists>new. priceAlerts (savePriceAlert name_field parsed now pg) = priceAlerts pg @ [new]
               \<and> triggered new = False)"
    by (simp add: savePriceAlert_def Let_def setItem_def write_or_throw_def)
  have created_revised:
    "priceAlerts (savePriceAlert_revised name_field parsed now iso_now pg) = priceAlerts pg
        \<or> (\<exists>new. priceAlerts (savePriceAlert_revised name_field parsed now iso_now pg)
                     = priceAlerts pg @ [new]
               \<and> triggered new = False)"
    by (simp add: savePriceAlert_revised_def Let_def setItem_def)
  show ?thesis
    using run_evolves [of ops pg] triggered_survives [of a pg ops] excluded created
      created_revised
    by blast
qed

lemma rice_found: "find (alert_hit rice_rule) scenario_prices = Some rice_500"
  by code_simp

lemma fired_rice_page:
  "priceAlerts (checkPriceAlerts scenario_prices rice_page) = [rice_rule\<lparr>triggered := True\<rparr>]"
proof -
  have "check_alert scenario_prices rice_rule
      = (rice_rule\<lparr>triggered := True\<rparr>, [toast_text rice_rule rice_500])"
    by (simp add: check_alert_def rice_found) (simp add: rice_rule_def)
  then show ?thesis
    by (simp add: checkPriceAlerts_fields rice_page_def empty_page_def)
qed

theorem triggered_monotonic_witness:
  "rice_rule\<lparr>triggered := True\<rparr>
     \<in> set (priceAlerts (run_page
              [CheckPriceAlerts scenario_prices,
               SavePriceAlertRevised ''beans'' (Fin 200) 9 ''2025-01-01T00:00:00.000Z'',
               CheckPriceAlertsRevised scenario_prices,
               DeleteAlert 9]
              (checkPriceAlerts scenario_prices rice_page)))
   \<and> check_alert scenario_prices (rice_rule\<lparr>triggered := True\<rparr>)
       = (rice_rule\<lparr>triggered := True\<rparr>, [])
   \<and> check_alert_revised scenario_prices (rice_rule\<lparr>triggered := True\<rparr>)
       = (rice_rule\<lparr>triggered := True\<rparr>, [])"
proof -
  have present: "rice_rule\<lparr>triggered := True\<rparr>
      \<in> set (priceAlerts (checkPriceAlerts scenario_prices rice_page))"
    by (simp add: fired_rice_page)
  have fired: "triggered (rice_rule\<lparr>triggered := True\<rparr>)"
    by simp
  have not_deleted: "DeleteAlert (alert_id (rice_rule\<lparr>triggered := True\<rparr>))
      \<notin> set [CheckPriceAlerts scenario_prices, SavePriceAlertRevised ''beans'' (Fin 200) 9 ''2025-01-01T00:00:00.000Z'',
               CheckPriceAlertsRevised scenario_prices, DeleteAlert 9]"
    by (simp add: rice_rule_def)
  show ?thesis
    using triggered_monotonic [of
        "[CheckPriceAlerts scenario_prices, SavePriceAlertRevised ''beans'' (Fin 200) 9 ''2025-01-01T00:00:00.000Z'',
          CheckPriceAlertsRevised scenario_prices, DeleteAlert 9]"
        "checkPriceAlerts scenario_prices rice_page"
        "rice_rule\<lparr>triggered := True\<rparr>" scenario_prices]
      present fired not_deleted
    by blast
qed

subsection \<open>Rendering of zero\<close>

lemma floor_numeral_div_rat: "\<lfloor>numeral a / numeral b :: rat\<rfloor> = numeral a div numeral b"
  by (metis floor_divide_of_int_eq of_int_numeral)

lemma floor_half_rat: "\<lfloor>1 / 2 :: rat\<rfloor> = 0"
  by (metis floor_divide_of_int_eq of_int_1 of_int_numeral div_by_1 one_div_two_eq_zero)

lemma toFixed2_zero: "toFixed2 (Fin 0) = ''0.00''"
  by (simp add: toFixed2_def Let_def floor_half_rat digits_of_small)

lemma replace_with_commas_zero: "replace_with_commas False ''0.00'' = ''0.00''"
  by code_simp

lemma formatCurrency_zero: "formatCurrency (IsNumber (Fin 0)) = naira @ ''0.00''"
  by (simp add: formatCurrency_def toFixed2_zero replace_with_commas_zero)

subsection \<open>Statistics of an empty set\<close>

text \<open>
  C5. On an empty snapshot the page-wide statistics are a count of 0 and an average of
  0, shown as a currency amount of 0.00 (and no locations or retailers); for a category
  that no record belongs to, the count, the average, the minimum and the maximum are
  all 0, and the page that shows a count and an average shows 0 and 0.00. None of them
  is \<open>NaN\<close>. The source computes a minimum and a maximum per category only, and in the
  revised page only.
\<close>

theorem empty_statistics:
  "updateStats [] = \<lparr>totalPrices = 0, avg = Fin 0, avgPrice = naira @ ''0.00'',
                      totalLocations = 0, totalRetailers = 0\<rparr>
   \<and> ((\<forall>p \<in> set allPrices. category_id p \<noteq> cat)
        \<longrightarrow> category_insight cat allPrices
              = \<lparr>count = 0, avgPrice_of = Fin 0, minPrice_of = Fin 0, maxPrice_of = Fin 0\<rparr>
            \<and> populateCategoryInsights cat allPrices
              = \<lparr>total_prices = 0, average_price = naira @ ''0.00''\<rparr>)"
proof -
  have page_wide: "updateStats [] = \<lparr>totalPrices = 0, avg = Fin 0, avgPrice = naira @ ''0.00'',
                      totalLocations = 0, totalRetailers = 0\<rparr>"
    by (simp add: updateStats_def average_def distinct_count_def formatCurrency_zero)
  have per_category: "category_insight cat allPrices
      = \<lparr>count = 0, avgPrice_of = Fin 0, minPrice_of = Fin 0, maxPrice_of = Fin 0\<rparr>
      \<and> populateCategoryInsights cat allPrices
          = \<lparr>total_prices = 0, average_price = naira @ ''0.00''\<rparr>"
    if none: "\<forall>p \<in> set allPrices. category_id p \<noteq> cat"
  proof -
    from none have "filter (\<lambda>p. category_id p = cat) allPrices = []"
      by (simp add: filter_empty_conv)
    then show ?thesis
      by (simp add: category_insight_def populateCategoryInsights_def average_def
          formatCurrency_zero)
  qed
  from page_wide per_category show ?thesis by blast
qed

theorem empty_statistics_witness:
  "category_insight (Some 2) scenario_prices
       = \<lparr>count = 0, avgPrice_of = Fin 0, minPrice_of = Fin 0, maxPrice_of = Fin 0\<rparr>
   \<and> populateCategoryInsights (Some 2) scenario_prices
       = \<lparr>total_prices = 0, average_price = naira @ ''0.00''\<rparr>"
proof -
  have none: "\<forall>p \<in> set scenario_prices. category_id p \<noteq> Some 2"
    by (simp add: scenario_prices_def rice_500_def rice_1500_def)
  with empty_statistics [of scenario_prices "Some 2"] show ?thesis by blast
qed

subsection \<open>Filters\<close>

text \<open>What the filter keeps, in the order of the snapshot: the bounds in force are the
  parsed ones unless falsy, that is unless \<open>NaN\<close> or zero.\<close>

lemma applyFilters_filter:
  "applyFilters form allPrices =
     filter (\<lambda>p.
        (filterCategory form = [] \<or> js_String (category_id p) = filterCategory form)
        \<and> price_within (price p) (num_or (filterMinPrice form) (Fin 0))
             (num_or (filterMaxPrice form) PosInf)
        \<and> (toLowerCase (filterRetailer form) = []
             \<or> text_has (retailer p) (toLowerCase (filterRetailer form)))
        \<and> (toLowerCase (filterLocation form) = []
             \<or> text_has (location p) (toLowerCase (filterLocation form)))) allPrices"
  unfolding applyFilters_def Let_def
  by (rule filter_cong) (auto simp: price_within_def js_ge_def split: price_val.splits)

text \<open>
  C2, at the input where the source departs from it. With a maximum price of 0 in the
  form, \<^verbatim>\<open>parseFloat(...) || Number.POSITIVE_INFINITY\<close> yields \<open>+Infinity\<close>, and a
  record priced 500 passes the filter although 500 is not in \<open>[0, 0]\<close>.
\<close>

theorem zero_maximum_not_applied:
  "applyFilters \<lparr>filterCategory = [], filterMinPrice = NaN, filterMaxPrice = Fin 0,
                 filterRetailer = [], filterLocation = []\<rparr> [rice_500] = [rice_500]
   \<and> price_within (price rice_500) (Fin 0) (Fin 0) = False"
  by (simp add: applyFilters_filter rice_500_def price_within_def num_or_def toLowerCase_def)

subsection \<open>Search\<close>

text \<open>
  C4, at the input where the source departs from it. A record whose brand alone contains
  the query is not found by the search of \<^verbatim>\<open>user-dashboard.js\<close>; the search of the
  revised page finds it.
\<close>

theorem brand_not_searched:
  "text_has (brand branded_rice) ''mama''
   \<and> search ''mama'' [branded_rice] = Results [] []
   \<and> search_filter_revised ''mama'' [branded_rice] = [branded_rice]"
  by code_simp

subsection \<open>Currency formatting\<close>

lemma digit_chars: "list_all is_digit ''0123456789''"
  by code_simp

lemma digit_char_is_digit: "k < 10 \<Longrightarrow> is_digit (''0123456789'' ! k)"
  using digit_chars by (simp add: list_all_length)

lemma digits_of_digits: "list_all is_digit (digits_of n)"
proof (induction n rule: digits_of.induct)
  case (1 n)
  show ?case
  proof (cases "n < 10")
    case True
    then show ?thesis by (simp add: digits_of_small digit_char_is_digit)
  next
    case False
    with 1 show ?thesis by (simp add: digits_of_large digit_char_is_digit)
  qed
qed

lemma digits_of_nonempty: "digits_of n \<noteq> []"
  by (cases "n < 10") (simp_all add: digits_of_small digits_of_large)

lemma digits_of_length_2: "10 \<le> n \<Longrightarrow> n < 100 \<Longrightarrow> digits_of n = two_digits n"
  by (simp add: digits_of_large digits_of_small two_digits_def)

lemma digits_of_hundreds:
  assumes "100 \<le> n"
  shows "digits_of n = digits_of (n div 100) @ two_digits (n mod 100)"
proof -
  have a: "\<not> n < 10" "\<not> n div 10 < 10" using assms by simp_all
  have split: "n mod 100 = 10 * (n div 10 mod 10) + n mod 10"
    using mod_mult2_eq [of n 10 10] by simp
  have "n div 10 div 10 = n div 100" by (simp add: div_mult2_eq)
  moreover have "n mod 100 div 10 = n div 10 mod 10"
    unfolding split by simp
  moreover have "n mod 100 mod 10 = n mod 10"
    unfolding split by simp
  ultimately show ?thesis
    by (simp add: digits_of_large [OF a(1)] digits_of_large [OF a(2)] two_digits_def)
qed

lemma two_digits_length [simp]: "length (two_digits k) = 2"
  by (simp add: two_digits_def)

lemma toFixed2_finite:
  "toFixed2 (Fin x) =
     (if x < 0 then ''-'' else []) @ digits_of (hundredths x div 100) @ ''.''
       @ two_digits (hundredths x mod 100)"
proof -
  define n where "n = hundredths x"
  have tf: "toFixed2 (Fin x) =
      (if x < 0 then ''-'' else [])
      @ (let m0 = digits_of n;
             m = (if length m0 \<le> 2 then replicate (3 - length m0) (CHR ''0'') @ m0 else m0);
             k = length m
         in take (k - 2) m @ ''.'' @ drop (k - 2) m)"
    by (simp add: toFixed2_def Let_def n_def hundredths_def)
  consider "n < 10" | "10 \<le> n" "n < 100" | "100 \<le> n" by linarith
  then have "(let m0 = digits_of n;
             m = (if length m0 \<le> 2 then replicate (3 - length m0) (CHR ''0'') @ m0 else m0);
             k = length m
         in take (k - 2) m @ ''.'' @ drop (k - 2) m)
      = digits_of (n div 100) @ ''.'' @ two_digits (n mod 100)"
  proof cases
    case 1
    then show ?thesis
      by (simp add: digits_of_small two_digits_def Let_def numeral_3_eq_3)
  next
    case 2
    then show ?thesis
      by (simp add: digits_of_length_2 digits_of_small Let_def)
  next
    case 3
    have "length (digits_of (n div 100)) \<noteq> 0"
      using digits_of_nonempty by simp
    then show ?thesis
      by (simp add: digits_of_hundreds [OF 3] Let_def)
  qed
  then show ?thesis
    unfolding tf n_def by simp
qed

lemma digit_is_word: "is_digit c \<Longrightarrow> is_word_char c"
  by (simp add: is_digit_def is_word_char_def Let_def)

lemma point_and_minus:
  "is_digit (CHR ''.'') = False" "is_word_char (CHR ''.'') = False"
  "is_digit (CHR ''-'') = False" "is_word_char (CHR ''-'') = False"
  by code_simp+

lemma digit_run:
  "list_all is_digit ds \<Longrightarrow> takeWhile is_digit (ds @ CHR ''.'' # rest) = ds"
  by (simp add: takeWhile_append2 list_all_iff point_and_minus)

lemma replace_decimals:
  assumes "is_digit e1" "is_digit e2"
  shows "replace_with_commas True (''.'' @ [e1, e2]) = ''.'' @ [e1, e2]"
  using assms
  by (simp add: replace_with_commas.simps point_and_minus digit_is_word digit_triples_ahead_def)

lemma replace_digits:
  assumes "list_all is_digit ds" "is_digit e1" "is_digit e2"
  shows "replace_with_commas True (ds @ ''.'' @ [e1, e2]) = commas_before ds @ ''.'' @ [e1, e2]"
  using assms(1)
proof (induction ds)
  case Nil
  show ?case using replace_decimals [OF assms(2,3)] by simp
next
  case (Cons d ds)
  then have d: "is_digit d" "list_all is_digit ds" by simp_all
  have run: "takeWhile is_digit ((d # ds) @ CHR ''.'' # [e1, e2]) = d # ds"
    by (rule digit_run) (simp add: d)
  have "replace_with_commas True ((d # ds) @ ''.'' @ [e1, e2])
      = (if length (d # ds) mod 3 = 0 then '','' else [])
        @ d # replace_with_commas True (ds @ ''.'' @ [e1, e2])"
    using run d(1)
    by (simp add: replace_with_commas.simps digit_is_word digit_triples_ahead_def)
  with Cons.IH [OF d(2)] show ?case by simp
qed

lemma replace_amount:
  assumes "list_all is_digit (d # ds)" "is_digit e1" "is_digit e2"
  shows "replace_with_commas False ((if neg then ''-'' else []) @ (d # ds) @ ''.'' @ [e1, e2])
    = (if neg then ''-'' else []) @ d # commas_before ds @ ''.'' @ [e1, e2]"
proof -
  from assms(1) have d: "is_digit d" "list_all is_digit ds" by simp_all
  have first: "replace_with_commas False ((d # ds) @ ''.'' @ [e1, e2])
      = d # replace_with_commas True (ds @ ''.'' @ [e1, e2])"
    using d(1) by (simp add: replace_with_commas.simps digit_is_word)
  have minus: "replace_with_commas False (''-'' @ (d # ds) @ ''.'' @ [e1, e2])
      = ''-'' @ replace_with_commas False ((d # ds) @ ''.'' @ [e1, e2])"
    by (simp add: replace_with_commas.simps(2) point_and_minus
        digit_triples_ahead_def)
  show ?thesis
    using first minus replace_digits [OF d(2) assms(2,3)] by simp
qed

lemma three_more: "(4 + n) mod 3 = Suc n mod (3 :: nat)"
  by presburger

lemma commas_after_three_snoc:
  "commas_after_three (ys @ [c])
     = commas_after_three ys @ [c] @ (if (length ys + 1) mod 3 = 0 then '','' else [])"
  by (induction ys rule: commas_after_three.induct) (simp_all add: three_more)

lemma rev_commas_before: "rev (commas_before ds) = commas_after_three (rev ds)"
  by (induction ds) (simp_all add: commas_after_three_snoc)

lemma commas_from_right_snoc:
  "commas_from_right (ys @ [d]) = commas_after_three ys @ [d]"
proof (induction ys rule: commas_after_three.induct)
  case (1 a b c rest)
  then show ?case by (cases rest) simp_all
qed simp_all

lemma thousands_Cons: "thousands (d # ds) = d # commas_before ds"
  by (simp add: thousands_def commas_from_right_snoc rev_commas_before [symmetric])

lemma two_digits_digits: "k < 100 \<Longrightarrow> list_all is_digit (two_digits k)"
  by (simp add: two_digits_def digit_char_is_digit)

lemma formatCurrency_finite:
  "formatCurrency (IsNumber (Fin x)) =
     naira @ (if x < 0 then ''-'' else []) @ thousands (digits_of (hundredths x div 100))
       @ ''.'' @ two_digits (hundredths x mod 100)"
proof -
  obtain d ds where whole: "digits_of (hundredths x div 100) = d # ds"
    using digits_of_nonempty by (cases "digits_of (hundredths x div 100)") auto
  have digits: "list_all is_digit (d # ds)"
    using digits_of_digits [of "hundredths x div 100"] by (simp add: whole)
  obtain e1 e2 where cents: "two_digits (hundredths x mod 100) = [e1, e2]"
    by (simp add: two_digits_def)
  have e: "is_digit e1" "is_digit e2"
    using two_digits_digits [of "hundredths x mod 100"] by (simp_all add: cents)
  have "replace_with_commas False (toFixed2 (Fin x))
      = (if x < 0 then ''-'' else []) @ d # commas_before ds @ ''.'' @ [e1, e2]"
    using replace_amount [OF digits e, of "x < 0"] by (simp add: toFixed2_finite whole cents)
  then show ?thesis
    by (simp add: formatCurrency_def whole cents thousands_Cons)
qed

lemma replace_infinity:
  "replace_with_commas False ''Infinity'' = ''Infinity''"
  "replace_with_commas False ''-Infinity'' = ''-Infinity''"
  by code_simp+

lemma formatCurrency_infinite:
  "formatCurrency (IsNumber PosInf) = naira @ ''Infinity''"
  "formatCurrency (IsNumber NegInf) = naira @ ''-Infinity''"
  by (simp_all add: formatCurrency_def toFixed2_def replace_infinity)

lemma formatCurrency_unparsed: "formatCurrency (NotNumber NaN) = naira @ ''0.00''"
  by (simp add: formatCurrency_def num_or_def toFixed2_zero replace_with_commas_zero)

lemma two_decimals_finite: "two_decimals (formatCurrency (IsNumber (Fin x)))"
proof -
  obtain e1 e2 where cents: "two_digits (hundredths x mod 100) = [e1, e2]"
    by (simp add: two_digits_def)
  have e: "is_digit e1" "is_digit e2"
    using two_digits_digits [of "hundredths x mod 100"] by (simp_all add: cents)
  then show ?thesis
    by (simp add: formatCurrency_finite cents two_decimals_def)
qed

text \<open>
  C10, as stated, fails on a number that is not finite: \<open>+Infinity\<close> (which the JSON
  text \<^verbatim>\<open>1e999\<close> parses to) is a number, goes to \<^verbatim>\<open>toFixed\<close> as it is, and comes back
  without decimal places.
\<close>

theorem infinite_amount_not_decimal:
  "formatCurrency (IsNumber PosInf) = naira @ ''Infinity''
   \<and> \<not> two_decimals (formatCurrency (IsNumber PosInf))"
proof -
  have "two_decimals (naira @ ''Infinity'') = False"
    by code_simp
  then show ?thesis
    by (simp add: formatCurrency_infinite)
qed

text \<open>
  C10, amended. For every input the result starts with the naira sign. A finite number
  of magnitude below \<open>10^21\<close> is rendered as its sign, the integer part with a comma
  between groups of three digits, a point and two decimal digits, the value being
  rounded to hundredths. An infinite number is rendered by its name. A value that is
  not a number and on which \<^verbatim>\<open>parseFloat\<close> gives \<open>NaN\<close> (\<^verbatim>\<open>undefined\<close>, \<^verbatim>\<open>null\<close>, a
  text with no numeric prefix) is rendered as 0.00.
\<close>

theorem formatCurrency_rendering:
  "prefix naira (formatCurrency amount)
   \<and> (\<bar>x\<bar> < 10 ^ 21 \<longrightarrow>
        formatCurrency (IsNumber (Fin x))
          = naira @ (if x < 0 then ''-'' else []) @ thousands (digits_of (hundredths x div 100))
              @ ''.'' @ two_digits (hundredths x mod 100)
        \<and> two_decimals (formatCurrency (IsNumber (Fin x))))
   \<and> formatCurrency (IsNumber PosInf) = naira @ ''Infinity''
   \<and> formatCurrency (IsNumber NegInf) = naira @ ''-Infinity''
   \<and> formatCurrency (NotNumber NaN) = naira @ ''0.00''"
proof -
  have "prefix naira (formatCurrency amount)"
    by (simp add: formatCurrency_def Let_def)
  then show ?thesis
    using formatCurrency_finite [of x] two_decimals_finite [of x] formatCurrency_infinite
      formatCurrency_unparsed
    by simp
qed

theorem formatCurrency_rendering_witness:
  "\<bar>1234567891 / 1000 :: rat\<bar> < 10 ^ 21
   \<and> formatCurrency (IsNumber (Fin (1234567891 / 1000))) = naira @ ''1,234,567.89''
   \<and> two_decimals (formatCurrency (IsNumber (Fin (1234567891 / 1000))))"
proof -
  have bound: "\<bar>1234567891 / 1000 :: rat\<bar> < 10 ^ 21"
    by simp
  have "hundredths (1234567891 / 1000) = 123456789"
    by (simp add: hundredths_def floor_numeral_div_rat)
  then have parts: "hundredths (1234567891 / 1000) div 100 = 1234567"
    "hundredths (1234567891 / 1000) mod 100 = 89"
    by simp_all
  have whole: "thousands (digits_of 1234567) = ''1,234,567''"
    by (simp add: digits_of_small digits_of_large thousands_def)
  have cents: "two_digits 89 = ''89''"
    by (simp add: two_digits_def)
  note rendering =
    formatCurrency_rendering [of "IsNumber (Fin (1234567891 / 1000))" "1234567891 / 1000"]
  from rendering bound
  have shown: "formatCurrency (IsNumber (Fin (1234567891 / 1000))) = naira @ ''1,234,567.89''"
    by (simp add: parts whole cents)
  from rendering bound
  have decimals: "two_decimals (formatCurrency (IsNumber (Fin (1234567891 / 1000))))"
    by blast
  from bound shown decimals show ?thesis
    by blast
qed

subsection \<open>Debouncing\<close>

lemma run_due_idle:
  assumes "\<forall>p \<in> set (pending b). t < fst (snd p)"
  shows "run_due t b = b"
proof -
  from assms have "filter (\<lambda>p. fst (snd p) \<le> t) (pending b) = []"
    by (auto simp: filter_empty_conv)
  then have "next_due t (pending b) = None"
    by (simp add: next_due_def)
  then show ?thesis
    by (simp add: run_due.simps [of t b])
qed

lemma run_due_single:
  assumes "pending b = [(h, due, cb)]" and "due \<le> t"
    and "pending (run_callback cb (b\<lparr>pending := []\<rparr>)) = []"
  shows "run_due t b = run_callback cb (b\<lparr>pending := []\<rparr>)"
proof -
  have "next_due t (pending b) = Some (h, due, cb)"
    using assms(1,2) by (simp add: next_due_def)
  then have "run_due t b = run_due t (run_callback cb (b\<lparr>pending := []\<rparr>))"
    using assms(1) by (simp add: run_due.simps [of t b])
  also have "\<dots> = run_callback cb (b\<lparr>pending := []\<rparr>)"
    by (rule run_due_idle) (simp add: assms(3))
  finally show ?thesis .
qed

lemma type_within_window:
  assumes "one_search_pending b" and "clock b \<le> t" and "t < clock b + 200"
  shows "one_search_pending (on_search_input v (advance t b))
    \<and> clock (on_search_input v (advance t b)) = t
    \<and> globalSearch (on_search_input v (advance t b)) = v"
proof -
  from assms(1) obtain h where h: "pending b = [(h, clock b + 200, SearchTimer)]"
    "search_timeout b = Some h" "evaluated b = []"
    by (auto simp: one_search_pending_def)
  have "run_due t b = b"
    by (rule run_due_idle) (simp add: h assms(3))
  then have adv: "advance t b = b\<lparr>clock := t\<rparr>"
    using assms(2) by (simp add: advance_def max_def)
  show ?thesis
    unfolding adv
    by (simp add: on_search_input_def Let_def clearTimeout_def setTimeout_def h
        one_search_pending_def)
qed

lemma type_first:
  assumes "fresh b" and "clock b \<le> t"
  shows "one_search_pending (on_search_input v (advance t b))
    \<and> clock (on_search_input v (advance t b)) = t
    \<and> globalSearch (on_search_input v (advance t b)) = v"
proof -
  from assms(1) have f: "pending b = []" "search_timeout b = None" "evaluated b = []"
    by (simp_all add: fresh_def)
  have "run_due t b = b"
    by (rule run_due_idle) (simp add: f)
  then have adv: "advance t b = b\<lparr>clock := t\<rparr>"
    using assms(2) by (simp add: advance_def max_def)
  show ?thesis
    unfolding adv
    by (simp add: on_search_input_def Let_def clearTimeout_def setTimeout_def f
        one_search_pending_def)
qed

lemma typing_goes_on:
  assumes "one_search_pending b" and "within_window 200 (clock b # map fst typing)"
  shows "one_search_pending (play wait (map (\<lambda>(t, v). (t, TypeSearch v)) typing) b)
    \<and> clock (play wait (map (\<lambda>(t, v). (t, TypeSearch v)) typing) b)
        = last (clock b # map fst typing)
    \<and> globalSearch (play wait (map (\<lambda>(t, v). (t, TypeSearch v)) typing) b)
        = last (globalSearch b # map snd typing)"
  using assms
proof (induction typing arbitrary: b)
  case Nil
  then show ?case by simp
next
  case (Cons e typing)
  obtain t v where e: "e = (t, v)" by (cases e)
  from Cons.prems(2) have t: "clock b \<le> t" "t < clock b + 200"
    and rest: "within_window 200 (t # map fst typing)"
    by (simp_all add: e)
  let ?b = "on_search_input v (advance t b)"
  from type_within_window [OF Cons.prems(1) t]
  have step: "one_search_pending ?b" "clock ?b = t" "globalSearch ?b = v"
    by simp_all
  from Cons.IH [of ?b] step rest show ?case
    by (simp add: e)
qed

lemma pause_evaluates:
  assumes "one_search_pending b" and "clock b + 200 \<le> t"
  shows "evaluated (advance t b) = [globalSearch b]"
proof -
  from assms(1) obtain h where h: "pending b = [(h, clock b + 200, SearchTimer)]"
    "evaluated b = []"
    by (auto simp: one_search_pending_def)
  have "run_due t b = run_callback SearchTimer (b\<lparr>pending := []\<rparr>)"
    using h(1) assms(2) by (rule run_due_single) simp
  then show ?thesis
    by (simp add: advance_def h(2))
qed

lemma call_within_window:
  assumes "one_call_pending wait b" and "clock b \<le> t" and "t < clock b + wait"
  shows "one_call_pending wait (executedFunction wait v (advance t b))
    \<and> clock (executedFunction wait v (advance t b)) = t
    \<and> pending_args (executedFunction wait v (advance t b)) = v"
proof -
  from assms(1) obtain h args where h: "pending b = [(h, clock b + wait, Later args)]"
    "debounce_timeout b = Some h" "func_calls b = []"
    by (auto simp: one_call_pending_def)
  have "run_due t b = b"
    by (rule run_due_idle) (simp add: h assms(3))
  then have adv: "advance t b = b\<lparr>clock := t\<rparr>"
    using assms(2) by (simp add: advance_def max_def)
  show ?thesis
    unfolding adv
    by (simp add: executedFunction_def Let_def clearTimeout_def setTimeout_def h
        one_call_pending_def pending_args_def)
qed

lemma call_first:
  assumes "fresh b" and "clock b \<le> t"
  shows "one_call_pending wait (executedFunction wait v (advance t b))
    \<and> clock (executedFunction wait v (advance t b)) = t
    \<and> pending_args (executedFunction wait v (advance t b)) = v"
proof -
  from assms(1) have f: "pending b = []" "debounce_timeout b = None" "func_calls b = []"
    by (simp_all add: fresh_def)
  have "run_due t b = b"
    by (rule run_due_idle) (simp add: f)
  then have adv: "advance t b = b\<lparr>clock := t\<rparr>"
    using assms(2) by (simp add: advance_def max_def)
  show ?thesis
    unfolding adv
    by (simp add: executedFunction_def Let_def clearTimeout_def setTimeout_def f
        one_call_pending_def pending_args_def)
qed

lemma calling_goes_on:
  assumes "one_call_pending wait b" and "within_window wait (clock b # map fst calls)"
  shows "one_call_pending wait (play wait (map (\<lambda>(t, v). (t, CallDebounced v)) calls) b)
    \<and> clock (play wait (map (\<lambda>(t, v). (t, CallDebounced v)) calls) b)
        = last (clock b # map fst calls)
    \<and> pending_args (play wait (map (\<lambda>(t, v). (t, CallDebounced v)) calls) b)
        = last (pending_args b # map snd calls)"
  using assms
proof (induction calls arbitrary: b)
  case Nil
  then show ?case by simp
next
  case (Cons e calls)
  obtain t v where e: "e = (t, v)" by (cases e)
  from Cons.prems(2) have t: "clock b \<le> t" "t < clock b + wait"
    and rest: "within_window wait (t # map fst calls)"
    by (simp_all add: e)
  let ?b = "executedFunction wait v (advance t b)"
  from call_within_window [OF Cons.prems(1) t]
  have step: "one_call_pending wait ?b" "clock ?b = t" "pending_args ?b = v"
    by simp_all
  from Cons.IH [of ?b] step rest show ?case
    by (simp add: e)
qed

lemma pause_calls:
  assumes "one_call_pending wait b" and "clock b + wait \<le> t"
  shows "func_calls (advance t b) = [pending_args b]"
proof -
  from assms(1) obtain h args where h: "pending b = [(h, clock b + wait, Later args)]"
    "func_calls b = []"
    by (auto simp: one_call_pending_def)
  have "run_due t b = run_callback (Later args) (b\<lparr>pending := []\<rparr>)"
    using h(1) assms(2)
    by (rule run_due_single) (simp add: clearTimeout_def Let_def split: option.splits)
  then show ?thesis
    by (simp add: advance_def h clearTimeout_def Let_def pending_args_def split: option.splits)
qed

text \<open>
  C8. On a page just loaded, let the search field be typed into at instants each less
  than 200 ms after the one before, and let input then pause until 200 ms or more after
  the last keystroke. Then the search has been evaluated exactly once, on the text of
  the last keystroke; no earlier text was evaluated. Likewise a function wrapped by
  \<^verbatim>\<open>debounce(func, wait)\<close> and called at instants each less than \<open>wait\<close> after the one
  before has been called exactly once after the pause, with the arguments of the last
  call.
\<close>

theorem debounced_once:
  assumes "fresh b" and "clock b \<le> t0"
    and "within_window 200 (t0 # map fst typing)"
    and "last (t0 # map fst typing) + 200 \<le> t_end"
    and "within_window wait (t0 # map fst calls)"
    and "last (t0 # map fst calls) + wait \<le> t_end'"
  shows "evaluated (advance t_end
            (play wait (map (\<lambda>(t, v). (t, TypeSearch v)) ((t0, v0) # typing)) b))
          = [last (v0 # map snd typing)]
    \<and> func_calls (advance t_end'
            (play wait (map (\<lambda>(t, v). (t, CallDebounced v)) ((t0, v0) # calls)) b))
          = [last (v0 # map snd calls)]"
proof -
  let ?b1 = "on_search_input v0 (advance t0 b)"
  from type_first [OF assms(1,2), of v0]
  have first: "one_search_pending ?b1" "clock ?b1 = t0" "globalSearch ?b1 = v0"
    by simp_all
  from typing_goes_on [of ?b1 typing wait] first assms(3)
  have typed: "one_search_pending (play wait (map (\<lambda>(t, v). (t, TypeSearch v)) typing) ?b1)"
    "clock (play wait (map (\<lambda>(t, v). (t, TypeSearch v)) typing) ?b1)
       = last (t0 # map fst typing)"
    "globalSearch (play wait (map (\<lambda>(t, v). (t, TypeSearch v)) typing) ?b1)
       = last (v0 # map snd typing)"
    by simp_all
  have searched: "evaluated (advance t_end
            (play wait (map (\<lambda>(t, v). (t, TypeSearch v)) ((t0, v0) # typing)) b))
          = [last (v0 # map snd typing)]"
    using pause_evaluates [OF typed(1), of t_end] typed(2,3) assms(4) by simp
  let ?c1 = "executedFunction wait v0 (advance t0 b)"
  from call_first [OF assms(1,2), of wait v0]
  have first': "one_call_pending wait ?c1" "clock ?c1 = t0" "pending_args ?c1 = v0"
    by simp_all
  from calling_goes_on [of wait ?c1 calls] first' assms(5)
  have called: "one_call_pending wait (play wait (map (\<lambda>(t, v). (t, CallDebounced v)) calls) ?c1)"
    "clock (play wait (map (\<lambda>(t, v). (t, CallDebounced v)) calls) ?c1)
       = last (t0 # map fst calls)"
    "pending_args (play wait (map (\<lambda>(t, v). (t, CallDebounced v)) calls) ?c1)
       = last (v0 # map snd calls)"
    by simp_all
  have debounced: "func_calls (advance t_end'
            (play wait (map (\<lambda>(t, v). (t, CallDebounced v)) ((t0, v0) # calls)) b))
          = [last (v0 # map snd calls)]"
    using pause_calls [OF called(1), of t_end'] called(2,3) assms(6) by simp
  from searched debounced show ?thesis by blast
qed

theorem debounced_once_witness:
  "evaluated (advance 450
      (play 300 [(0, TypeSearch ''a''), (100, TypeSearch ''ap''), (250, TypeSearch ''app'')]
         loaded_browser)) = [''app'']
   \<and> func_calls (advance 600
      (play 300 [(0, CallDebounced ''a''), (100, CallDebounced ''ap''), (250, CallDebounced ''app'')]
         loaded_browser)) = [''app'']"
proof -
  have start: "fresh loaded_browser" "clock loaded_browser \<le> 0"
    by (simp_all add: fresh_def loaded_browser_def)
  have typing: "within_window 200 (0 # map fst [(100, ''ap''), (250, ''app'')])"
    "last (0 # map fst [(100 :: nat, ''ap''), (250, ''app'')]) + 200 \<le> 450"
    by simp_all
  have calls: "within_window 300 (0 # map fst [(100, ''ap''), (250, ''app'')])"
    "last (0 # map fst [(100 :: nat, ''ap''), (250, ''app'')]) + 300 \<le> 600"
    by simp_all
  show ?thesis
    using debounced_once [OF start typing calls, of "''a''"]
    by simp
qed

end
